theory Spec2Isabelle
  imports Complex_Main "HOL-Library.AList" "HOL-Library.Sublist" "HOL-Library.Char_ord"
    "HOL-Library.Monad_Syntax"
begin

section \<open>Python values and strings\<close>

text \<open>
  A Python \<^verbatim>\<open>str\<close> is modelled as a \<^typ>\<open>string\<close>. Character classes and case mapping are
  those of Python on the ASCII range (\<^verbatim>\<open>str.isspace\<close>, \<^verbatim>\<open>str.lower\<close>, \<^verbatim>\<open>str.isupper\<close>);
  a character outside ASCII is taken as a caseless character that is neither a space, a
  digit nor a word character.
\<close>

definition is_space :: "char \<Rightarrow> bool" where
  "is_space c = (c \<in> {CHR 0x09, CHR 0x0A, CHR 0x0B, CHR 0x0C, CHR 0x0D,
                        CHR 0x1C, CHR 0x1D, CHR 0x1E, CHR 0x1F, CHR '' ''})"

definition is_upper :: "char \<Rightarrow> bool" where
  "is_upper c = (CHR ''A'' \<le> c \<and> c \<le> CHR ''Z'')"

definition is_lower :: "char \<Rightarrow> bool" where
  "is_lower c = (CHR ''a'' \<le> c \<and> c \<le> CHR ''z'')"

definition is_digit :: "char \<Rightarrow> bool" where
  "is_digit c = (CHR ''0'' \<le> c \<and> c \<le> CHR ''9'')"

definition is_word :: "char \<Rightarrow> bool" where
  "is_word c = (is_upper c \<or> is_lower c \<or> is_digit c \<or> c = CHR ''_'')"

definition lower_char :: "char \<Rightarrow> char" where
  "lower_char c = (if is_upper c then char_of (of_char c + (32::nat)) else c)"

definition upper_char :: "char \<Rightarrow> char" where
  "upper_char c = (if is_lower c then char_of (of_char c - (32::nat)) else c)"

definition lower :: "string \<Rightarrow> string" where
  "lower s = map lower_char s"

definition lstrip :: "string \<Rightarrow> string" where
  "lstrip s = dropWhile is_space s"

definition rstrip :: "string \<Rightarrow> string" where
  "rstrip s = rev (dropWhile is_space (rev s))"

definition strip :: "string \<Rightarrow> string" where
  "strip s = rstrip (lstrip s)"

text \<open>\<^verbatim>\<open>s.split(c)\<close> for a one-character separator: always at least one piece.\<close>

fun split_on :: "char \<Rightarrow> string \<Rightarrow> string list" where
  "split_on sep [] = [[]]"
| "split_on sep (c # cs) =
     (if c = sep then [] # split_on sep cs
      else (case split_on sep cs of p # ps \<Rightarrow> (c # p) # ps | [] \<Rightarrow> [[c]]))"

text \<open>\<^verbatim>\<open>s.split()\<close>: the maximal runs of non-space characters.\<close>

function split_ws :: "string \<Rightarrow> string list" where
  "split_ws s =
     (case dropWhile is_space s of
        [] \<Rightarrow> []
      | c # cs \<Rightarrow> takeWhile (\<lambda>x. \<not> is_space x) (c # cs)
                 # split_ws (dropWhile (\<lambda>x. \<not> is_space x) cs))"
  by pat_completeness auto
termination
proof (relation "measure length")
  fix s c cs
  assume a: "dropWhile is_space s = c # cs"
  have "length (dropWhile (\<lambda>x. \<not> is_space x) cs) \<le> length cs"
    by (rule length_dropWhile_le)
  moreover have "length (c # cs) \<le> length s"
    using length_dropWhile_le [of is_space s] a by simp
  ultimately show "(dropWhile (\<lambda>x. \<not> is_space x) cs, s) \<in> measure length"
    by simp
qed simp

declare split_ws.simps [simp del]

text \<open>\<^verbatim>\<open>sep.join(parts)\<close>.\<close>

fun join :: "string \<Rightarrow> string list \<Rightarrow> string" where
  "join sep [] = []"
| "join sep [p] = p"
| "join sep (p # q # ps) = p @ sep @ join sep (q # ps)"

text \<open>\<^verbatim>\<open>s.replace(a, b)\<close> for one-character \<open>a\<close> and \<open>b\<close>.\<close>

definition replace_char :: "char \<Rightarrow> char \<Rightarrow> string \<Rightarrow> string" where
  "replace_char a b s = map (\<lambda>c. if c = a then b else c) s"

text \<open>\<^verbatim>\<open>a in b\<close> on strings is \<^term>\<open>sublist a b\<close>: \<open>a\<close> occurs in \<open>b\<close> as a contiguous piece.\<close>

text \<open>
  The records the scorers read are JSON-like Python values. A dictionary is an association
  list in insertion order, with string keys.
\<close>

datatype pyval =
    PNone
  | PBool bool
  | PInt int
  | PStr string
  | PList "pyval list"
  | PDict "(string \<times> pyval) list"

type_synonym pydict = "(string \<times> pyval) list"

text \<open>\<^verbatim>\<open>d.get(k, default)\<close> and \<^verbatim>\<open>d.get(k)\<close>.\<close>

definition dict_get :: "pydict \<Rightarrow> string \<Rightarrow> pyval \<Rightarrow> pyval" where
  "dict_get d k dflt = (case map_of d k of None \<Rightarrow> dflt | Some v \<Rightarrow> v)"

text \<open>Truth value of a Python value, as \<^verbatim>\<open>if v\<close> and \<^verbatim>\<open>v or w\<close> take it.\<close>

fun truthy :: "pyval \<Rightarrow> bool" where
  "truthy PNone = False"
| "truthy (PBool b) = b"
| "truthy (PInt i) = (i \<noteq> 0)"
| "truthy (PStr s) = (s \<noteq> [])"
| "truthy (PList xs) = (xs \<noteq> [])"
| "truthy (PDict kvs) = (kvs \<noteq> [])"

text \<open>
  \<^verbatim>\<open>for x in v\<close>: the elements iterated, or \<open>None\<close> where Python raises TypeError. A string
  yields its characters as one-character strings, a dictionary its keys.
\<close>

fun py_iter :: "pyval \<Rightarrow> pyval list option" where
  "py_iter (PList xs) = Some xs"
| "py_iter (PStr s) = Some (map (\<lambda>c. PStr [c]) s)"
| "py_iter (PDict kvs) = Some (map (\<lambda>kv. PStr (fst kv)) kvs)"
| "py_iter _ = None"

text \<open>\<^verbatim>\<open>v.lower()\<close>: \<open>None\<close> (AttributeError) unless \<open>v\<close> is a string.\<close>

fun py_lower :: "pyval \<Rightarrow> string option" where
  "py_lower (PStr s) = Some (lower s)"
| "py_lower _ = None"

text \<open>\<^verbatim>\<open>[s for s in xs if isinstance(s, str)]\<close>.\<close>

fun strs_of :: "pyval list \<Rightarrow> string list" where
  "strs_of [] = []"
| "strs_of (PStr s # xs) = s # strs_of xs"
| "strs_of (_ # xs) = strs_of xs"


section \<open>Skill normalizer (src/utils/preprocessing.py)\<close>

text \<open>\<^verbatim>\<open>_WHITESPACE_RE.sub(" ", s)\<close>: every maximal run of spaces becomes one blank.\<close>

function collapse_ws :: "string \<Rightarrow> string" where
  "collapse_ws [] = []"
| "collapse_ws (c # cs) =
     (if is_space c then CHR '' '' # collapse_ws (dropWhile is_space cs)
      else c # collapse_ws cs)"
  by pat_completeness auto
termination
  by (relation "measure length") (auto simp: length_dropWhile_le less_Suc_eq_le)

definition normalize_text :: "string \<Rightarrow> string" where
  "normalize_text text = lower (strip (hd (split_on CHR ''('' text)))"

definition normalize_skill_string :: "string \<Rightarrow> string" where
  "normalize_skill_string skill =
     strip (collapse_ws
       (replace_char CHR ''-'' CHR '' '' (replace_char CHR ''/'' CHR '' '' (normalize_text skill))))"

definition synonym_mapping :: "(string \<times> string list) list" where
  "synonym_mapping =
     [(''rest api development'', [''rest'', ''api'', ''rest api'']),
      (''rest api'', [''rest'', ''api'']),
      (''ci cd pipelines'', [''cicd'', ''ci'', ''cd'', ''ci cd'']),
      (''nosql databases'', [''nosql'']),
      (''amazon web services'', [''aws'']),
      (''aws'', [''amazon web services'']),
      (''graphql'', [''graph ql'']),
      (''microservices architecture'', [''microservices''])]"

text \<open>
  The loop adds each skill and, for a key of the table, its synonyms. The result is a set,
  so the order in which the loop visits the skills is immaterial.
\<close>

definition expand_skill_synonyms :: "string set \<Rightarrow> string set" where
  "expand_skill_synonyms skills =
     (\<Union>sk \<in> skills. insert sk
        (case map_of synonym_mapping sk of None \<Rightarrow> {} | Some syns \<Rightarrow> set syns))"

text \<open>
  \<open>raw_skills\<close> is the sequence of elements the iterable yields. The comprehension keeps
  the strings whose \<^verbatim>\<open>strip()\<close> is not empty and normalizes each.
\<close>

definition normalize_skill_set :: "pyval list \<Rightarrow> string set" where
  "normalize_skill_set raw_skills =
     expand_skill_synonyms
       (set (map normalize_skill_string (filter (\<lambda>s. strip s \<noteq> []) (strs_of raw_skills))))"

text \<open>
  \<^verbatim>\<open>str(v)\<close> and \<^verbatim>\<open>repr(v)\<close>, which \<^verbatim>\<open>flatten_experience_description\<close> applies to a
  description that is not a list.
\<close>

definition hex_digit :: "nat \<Rightarrow> char" where
  "hex_digit n = (''0123456789abcdef'') ! (n mod 16)"

fun digits_of_nat :: "nat \<Rightarrow> string" where
  "digits_of_nat n =
     (if n < 10 then [hex_digit n] else digits_of_nat (n div 10) @ [hex_digit (n mod 10)])"

definition str_of_int :: "int \<Rightarrow> string" where
  "str_of_int i = (if i < 0 then CHR ''-'' # digits_of_nat (nat (- i)) else digits_of_nat (nat i))"

definition repr_char :: "char \<Rightarrow> char \<Rightarrow> string" where
  "repr_char quote c =
     (if c = CHR 0x5C then [CHR 0x5C, CHR 0x5C]
      else if c = quote then [CHR 0x5C, quote]
      else if c = CHR 0x09 then [CHR 0x5C, CHR ''t'']
      else if c = CHR 0x0A then [CHR 0x5C, CHR ''n'']
      else if c = CHR 0x0D then [CHR 0x5C, CHR ''r'']
      else if c < CHR '' '' \<or> c = CHR 0x7F
        then [CHR 0x5C, CHR ''x'', hex_digit (of_char c div 16), hex_digit (of_char c mod 16)]
      else [c])"

definition repr_str :: "string \<Rightarrow> string" where
  "repr_str s =
     (let quote = (if CHR 0x27 \<in> set s \<and> CHR 0x22 \<notin> set s then CHR 0x22 else CHR 0x27)
      in quote # concat (map (repr_char quote) s) @ [quote])"

fun py_repr :: "pyval \<Rightarrow> string" where
  "py_repr PNone = ''None''"
| "py_repr (PBool b) = (if b then ''True'' else ''False'')"
| "py_repr (PInt i) = str_of_int i"
| "py_repr (PStr s) = repr_str s"
| "py_repr (PList xs) = ''['' @ join '', '' (map py_repr xs) @ '']''"
| "py_repr (PDict kvs) =
     ''{'' @ join '', '' (map (\<lambda>kv. repr_str (fst kv) @ '': '' @ py_repr (snd kv)) kvs) @ ''}''"

fun py_str :: "pyval \<Rightarrow> string" where
  "py_str (PStr s) = s"
| "py_str v = py_repr v"

fun flatten_experience_description :: "pyval \<Rightarrow> string" where
  "flatten_experience_description (PDict exp_item) =
     (case dict_get exp_item ''description'' (PStr []) of
        PList desc \<Rightarrow> join '' '' (strs_of desc)
      | desc \<Rightarrow> py_str desc)"
| "flatten_experience_description (PStr exp_item) = exp_item"
| "flatten_experience_description _ = []"


section \<open>Composite scorer and classifier (src/scoring/scorer.py)\<close>

text \<open>
  \<^verbatim>\<open>ResumeScorer\<close> holds two thresholds, set by the constructor (defaults 0.8 and 0.5).
  Scores and thresholds are Python floats; they are modelled as reals, which is the order
  of all floats other than NaN.
\<close>

record ResumeScorer =
  suitable_threshold :: real
  maybe_threshold :: real

definition ResumeScorer_init :: "real option \<Rightarrow> real option \<Rightarrow> ResumeScorer" where
  "ResumeScorer_init st mt =
     \<lparr>suitable_threshold = (case st of None \<Rightarrow> 8 / 10 | Some t \<Rightarrow> t),
      maybe_threshold = (case mt of None \<Rightarrow> 5 / 10 | Some t \<Rightarrow> t)\<rparr>"

definition classify :: "ResumeScorer \<Rightarrow> real \<Rightarrow> string" where
  "classify self score =
     (if score \<ge> suitable_threshold self then ''Suitable''
      else if score \<ge> maybe_threshold self then ''Maybe Suitable''
      else ''Not Suitable'')"

definition score_resume :: "ResumeScorer \<Rightarrow> real \<Rightarrow> string \<times> real" where
  "score_resume self composite_score = (classify self composite_score, composite_score)"


section \<open>Rule-based scorer (src/scoring/rule\_based.py, src/config.py)\<close>

record rule_weights =
  required_skill_point :: int
  preferred_skill_point :: int
  experience_title_point :: int
  experience_desc_bonus :: int
  experience_desc_bonus_cap :: int
  education_full :: int
  education_partial :: int
  projects_cap :: int
  company_point :: int
  company_cap :: int

definition RULE_WEIGHTS :: rule_weights where
  "RULE_WEIGHTS =
     \<lparr>required_skill_point = 10,
      preferred_skill_point = 3,
      experience_title_point = 5,
      experience_desc_bonus = 1,
      experience_desc_bonus_cap = 10,
      education_full = 10,
      education_partial = 5,
      projects_cap = 10,
      company_point = 8,
      company_cap = 20\<rparr>"

definition MUST_HAVE_PENALTY :: int where
  "MUST_HAVE_PENALTY = 30"

record RuleBasedScorer =
  weights :: rule_weights

definition RuleBasedScorer_init :: RuleBasedScorer where
  "RuleBasedScorer_init = \<lparr>weights = RULE_WEIGHTS\<rparr>"

record breakdown =
  skills_score :: int
  education_score :: int
  experience_score :: int
  projects_score :: int
  company_score :: int

text \<open>
  The tuple \<^verbatim>\<open>score\<close> returns. The two lists are built from sets with \<^verbatim>\<open>list(...)\<close>, in an
  order Python does not fix; they are kept as the sets they enumerate.
\<close>

record score_result =
  total :: int
  parts :: breakdown
  matched_skills :: "string set"
  missing_skills :: "string set"

text \<open>The skill strings of one of the fields \<^verbatim>\<open>skills\<close> and \<^verbatim>\<open>technical_skills\<close>.\<close>

fun skills_of_source :: "pyval \<Rightarrow> string list" where
  "skills_of_source (PDict skill_source) =
     concat (map (\<lambda>kv. case snd kv of PList skill_list \<Rightarrow> strs_of skill_list | _ \<Rightarrow> [])
               skill_source)"
| "skills_of_source (PList skill_source) = strs_of skill_source"
| "skills_of_source _ = []"

definition resume_raw_skills :: "pydict \<Rightarrow> string list" where
  "resume_raw_skills resume =
     skills_of_source (dict_get resume ''skills'' (PDict []))
     @ skills_of_source (dict_get resume ''technical_skills'' (PDict []))"

text \<open>The normalized skill set of the resume, \<^verbatim>\<open>normalize_skill_set(resume_raw_skills)\<close>.\<close>

definition resume_skill_set :: "pydict \<Rightarrow> string set" where
  "resume_skill_set resume = normalize_skill_set (map PStr (resume_raw_skills resume))"

text \<open>
  \<^verbatim>\<open>any(part in resume_skill for part in skill_parts if len(part) > 2)\<close>, and the pass that
  adds to the directly matched skills every wanted skill a part of which occurs in some
  skill of the resume.
\<close>

definition any_part_in :: "string list \<Rightarrow> string \<Rightarrow> bool" where
  "any_part_in skill_parts resume_skill =
     (\<exists>part \<in> set skill_parts. length part > 2 \<and> sublist part resume_skill)"

definition partial_match :: "string set \<Rightarrow> string set \<Rightarrow> string set \<Rightarrow> string set" where
  "partial_match resume_skills wanted matched =
     matched \<union> Set.filter
       (\<lambda>sk. sk \<notin> matched \<and> (\<exists>resume_skill \<in> resume_skills. any_part_in (split_ws sk) resume_skill))
       wanted"

text \<open>\<^verbatim>\<open>(v or "").lower()\<close>.\<close>

definition or_empty_lower :: "pyval \<Rightarrow> string option" where
  "or_empty_lower v = (if truthy v then py_lower v else Some [])"

text \<open>
  The body of the education loop after \<open>degree\<close> and \<open>field\<close> are read: whether the loop
  breaks, and the new \<open>edu_score\<close>.
\<close>

definition education_entry ::
  "rule_weights \<Rightarrow> pydict \<Rightarrow> string \<Rightarrow> string \<Rightarrow> int \<Rightarrow> (bool \<times> int) option" where
  "education_entry w job degree field edu_score = do {
     req \<leftarrow> py_lower (dict_get job ''education_required'' (PStr []));
     base \<leftarrow> (if req \<noteq> [] then (case split_ws req of [] \<Rightarrow> None | b # _ \<Rightarrow> Some b)
              else Some []);
     Some (if base \<noteq> [] \<and> sublist base degree then
             (if sublist ''computer'' req \<and> sublist ''science'' req
                 \<and> (sublist ''computer'' field \<or> sublist ''comput'' field)
              then (True, education_full w)
              else (True, max edu_score (education_partial w)))
           else (False, edu_score))
   }"

fun education_loop :: "rule_weights \<Rightarrow> pydict \<Rightarrow> pyval list \<Rightarrow> int \<Rightarrow> int option" where
  "education_loop w job [] edu_score = Some edu_score"
| "education_loop w job (edu # rest) edu_score =
     (case edu of
        PDict d \<Rightarrow> do {
          degree \<leftarrow> or_empty_lower (dict_get d ''degree'' PNone);
          field \<leftarrow> or_empty_lower (dict_get d ''field'' PNone);
          r \<leftarrow> education_entry w job degree field edu_score;
          if fst r then Some (snd r) else education_loop w job rest (snd r)
        }
      | PStr e \<Rightarrow> do {
          r \<leftarrow> education_entry w job (lower e) (lower e) edu_score;
          if fst r then Some (snd r) else education_loop w job rest (snd r)
        }
      | _ \<Rightarrow> education_loop w job rest edu_score)"

text \<open>
  The experience loop carries \<open>(exp_score, desc_bonus)\<close>. The inner loop over the set of
  required skills adds the bonus once for each skill found in the description.
\<close>

definition experience_entry ::
  "rule_weights \<Rightarrow> string set \<Rightarrow> string \<Rightarrow> string \<Rightarrow> int \<times> int \<Rightarrow> int \<times> int" where
  "experience_entry w required_skills title desc_text acc =
     ((if \<exists>skill \<in> required_skills. sublist skill title
       then fst acc + experience_title_point w else fst acc),
      snd acc + (\<Sum>req_skill \<in> required_skills.
                   if sublist req_skill desc_text then experience_desc_bonus w else 0))"

fun experience_loop ::
  "rule_weights \<Rightarrow> string set \<Rightarrow> pyval list \<Rightarrow> int \<times> int \<Rightarrow> (int \<times> int) option" where
  "experience_loop w required_skills [] acc = Some acc"
| "experience_loop w required_skills (exp_item # rest) acc =
     (case exp_item of
        PDict d \<Rightarrow> do {
          title \<leftarrow> or_empty_lower (dict_get d ''title'' PNone);
          experience_loop w required_skills rest
            (experience_entry w required_skills title
               (lower (flatten_experience_description exp_item)) acc)
        }
      | PStr e \<Rightarrow>
          experience_loop w required_skills rest
            (experience_entry w required_skills (lower e) (lower e) acc)
      | _ \<Rightarrow> experience_loop w required_skills rest acc)"

fun projects_loop :: "string set \<Rightarrow> pyval list \<Rightarrow> int \<Rightarrow> int option" where
  "projects_loop required_skills [] proj_score = Some proj_score"
| "projects_loop required_skills (proj # rest) proj_score =
     (case proj of
        PDict d \<Rightarrow> do {
          ts \<leftarrow> py_iter (dict_get d ''technologies'' (PList []));
          techs \<leftarrow> those (map py_lower ts);
          projects_loop required_skills rest
            (proj_score + int (card (set techs \<inter> required_skills)) * 2)
        }
      | PStr p \<Rightarrow>
          projects_loop required_skills rest
            (proj_score
             + int (card (Set.filter (\<lambda>skill. sublist skill (lower p)) required_skills
                          \<inter> required_skills)) * 2)
      | _ \<Rightarrow>
          projects_loop required_skills rest
            (proj_score + int (card ({} \<inter> required_skills)) * 2))"

fun company_loop :: "rule_weights \<Rightarrow> string set \<Rightarrow> pyval list \<Rightarrow> int \<Rightarrow> int option" where
  "company_loop w preferred_companies [] company_sc = Some company_sc"
| "company_loop w preferred_companies (exp_item # rest) company_sc =
     (case exp_item of
        PDict d \<Rightarrow> do {
          company \<leftarrow> or_empty_lower (dict_get d ''company'' PNone);
          company_loop w preferred_companies rest
            (if \<exists>pref_company \<in> preferred_companies. sublist pref_company company
             then company_sc + company_point w else company_sc)
        }
      | _ \<Rightarrow> company_loop w preferred_companies rest company_sc)"

text \<open>
  \<^verbatim>\<open>RuleBasedScorer.score\<close>. \<open>None\<close> is an exception leaving the method (a field that
  cannot be iterated, \<^verbatim>\<open>.lower()\<close> on a value that is not a string, \<^verbatim>\<open>req.split()[0]\<close> on a
  blank requirement).
\<close>

definition score :: "RuleBasedScorer \<Rightarrow> pydict \<Rightarrow> pydict \<Rightarrow> score_result option" where
  "score self resume job = do {
     let w = weights self;
     let resume_skills = resume_skill_set resume;
     required_raw \<leftarrow> py_iter (dict_get job ''required_skills'' (PList []));
     let required_skills = normalize_skill_set required_raw;
     preferred_raw \<leftarrow> py_iter (dict_get job ''preferred_skills'' (PList []));
     let preferred_skills = normalize_skill_set preferred_raw;
     let matched_required =
       partial_match resume_skills required_skills (resume_skills \<inter> required_skills);
     let matched_preferred =
       partial_match resume_skills preferred_skills (resume_skills \<inter> preferred_skills);
     let skills = int (card matched_required) * required_skill_point w
                  + int (card matched_preferred) * preferred_skill_point w;
     education \<leftarrow> py_iter (dict_get resume ''education'' (PList []));
     edu_score \<leftarrow> education_loop w job education 0;
     experience \<leftarrow> py_iter (dict_get resume ''experience'' (PList []));
     exp_acc \<leftarrow> experience_loop w required_skills experience (0, 0);
     let desc_bonus = min (snd exp_acc) (experience_desc_bonus_cap w);
     let experience_sc = min (fst exp_acc + desc_bonus) 15;
     projects \<leftarrow> py_iter (dict_get resume ''projects'' (PList []));
     proj_score \<leftarrow> projects_loop required_skills projects 0;
     let projects_sc = min proj_score (projects_cap w);
     companies_raw \<leftarrow> py_iter (dict_get job ''preferred_companies'' (PList []));
     companies \<leftarrow> those (map py_lower companies_raw);
     let preferred_companies = set companies;
     company1 \<leftarrow> company_loop w preferred_companies experience 0;
     work_experience \<leftarrow> py_iter (dict_get resume ''work_experience'' (PList []));
     company2 \<leftarrow> company_loop w preferred_companies work_experience company1;
     let company_sc = min company2 (company_cap w);
     let score = 0 + skills + edu_score + experience_sc + projects_sc + company_sc;
     must_raw \<leftarrow> py_iter (dict_get job ''must_have_skills'' (PList []));
     let must_have = normalize_skill_set must_raw;
     let missing_must = Set.filter (\<lambda>s. s \<notin> resume_skills) must_have;
     let score = (if missing_must \<noteq> {} then max 0 (score - MUST_HAVE_PENALTY) else score);
     Some \<lparr>total = min score 100,
           parts = \<lparr>skills_score = skills, education_score = edu_score,
                     experience_score = experience_sc, projects_score = projects_sc,
                     company_score = company_sc\<rparr>,
           matched_skills = matched_required,
           missing_skills = required_skills - matched_required\<rparr>
   }"


text \<open>The sum of the five components of a breakdown.\<close>

definition breakdown_sum :: "breakdown \<Rightarrow> int" where
  "breakdown_sum b =
     skills_score b + education_score b + experience_score b + projects_score b + company_score b"

text \<open>Records used to run the scorer on concrete inputs.\<close>

definition resume_full :: pydict where
  "resume_full =
     [(''skills'', PDict [(''technical'', PList [PStr ''Python'', PStr ''AWS''])]),
      (''education'', PList [PDict [(''degree'', PStr ''Bachelor of Science''),
                                    (''field'', PStr ''Computer Science'')]]),
      (''experience'',
         PList [PDict [(''title'', PStr ''Python Developer''),
                       (''company'', PStr ''Google''),
                       (''description'', PList [PStr ''Built Python services on AWS''])]]),
      (''projects'', PList [PDict [(''technologies'', PList [PStr ''Python''])]])]"

definition job_full :: pydict where
  "job_full =
     [(''required_skills'', PList [PStr ''Python'', PStr ''AWS'']),
      (''preferred_companies'', PList [PStr ''Google'']),
      (''education_required'', PStr ''Bachelor Computer Science'')]"

definition resume_seven :: pydict where
  "resume_seven =
     [(''skills'', PList [PStr ''Java'', PStr ''SQL'', PStr ''Docker'', PStr ''Git'',
                          PStr ''Linux'', PStr ''Go'', PStr ''Rust''])]"

definition job_python :: pydict where
  "job_python =
     [(''required_skills'', PList [PStr ''Java'', PStr ''SQL'', PStr ''Docker'', PStr ''Git'',
                                   PStr ''Linux'', PStr ''Go'', PStr ''Rust'']),
      (''must_have_skills'', PList [PStr ''Python''])]"

definition job_seven :: pydict where
  "job_seven =
     [(''required_skills'', PList [PStr ''Java'', PStr ''SQL'', PStr ''Docker'', PStr ''Git'',
                                   PStr ''Linux'', PStr ''Go'', PStr ''Rust''])]"


definition resume_eleven :: pydict where
  "resume_eleven =
     [(''skills'', PList [PStr ''Java'', PStr ''SQL'', PStr ''Docker'', PStr ''Git'',
                          PStr ''Linux'', PStr ''Go'', PStr ''Rust'', PStr ''Ruby'',
                          PStr ''Perl'', PStr ''Scala'', PStr ''Kotlin''])]"

definition job_eleven :: pydict where
  "job_eleven =
     [(''required_skills'', PList [PStr ''Java'', PStr ''SQL'', PStr ''Docker'', PStr ''Git'',
                                   PStr ''Linux'', PStr ''Go'', PStr ''Rust'', PStr ''Ruby'',
                                   PStr ''Perl'', PStr ''Scala'', PStr ''Kotlin''])]"


section \<open>Skill coverage (src/models/semantic\_matcher.py)\<close>

text \<open>
  \<^verbatim>\<open>SemanticMatcher.compute_skill_coverage\<close>. The required skills are lowercased with
  \<^verbatim>\<open>s.lower()\<close> (an exception, \<open>None\<close>, when the field cannot be iterated or holds a value
  that is not a string); the skills of the resume go through \<^verbatim>\<open>normalize_skill_set\<close>. The
  float returned is the quotient of two small integers, kept as a real.
\<close>

definition compute_skill_coverage :: "pydict \<Rightarrow> pydict \<Rightarrow> real option" where
  "compute_skill_coverage job_data resume_data = do {
     required_raw \<leftarrow> py_iter (dict_get job_data ''required_skills'' (PList []));
     lowered \<leftarrow> those (map py_lower required_raw);
     let required = set lowered;
     let resume_skills = resume_skill_set resume_data;
     if required = {} then Some 0
     else Some (real (card (required \<inter> resume_skills)) / real (card required))
   }"

text \<open>
  The coverage as the specification words it, for comparison: the required skills are
  normalized with \<^verbatim>\<open>normalize_skill_set\<close> too, as \<^verbatim>\<open>RuleBasedScorer.score\<close> does.
\<close>

definition coverage_as_specified :: "pydict \<Rightarrow> pydict \<Rightarrow> real option" where
  "coverage_as_specified job_data resume_data = do {
     required_raw \<leftarrow> py_iter (dict_get job_data ''required_skills'' (PList []));
     let required = normalize_skill_set required_raw;
     let resume_skills = resume_skill_set resume_data;
     if required = {} then Some 0
     else Some (real (card (required \<inter> resume_skills)) / real (card required))
   }"

definition job_cicd :: pydict where
  "job_cicd = [(''required_skills'', PList [PStr ''CI/CD''])]"

definition resume_cicd :: pydict where
  "resume_cicd = [(''skills'', PList [PStr ''CI/CD''])]"


section \<open>Regular expressions (Python's \<^verbatim>\<open>re\<close>)\<close>

text \<open>
  The patterns of the parser are kept as syntax trees and run by a backtracking matcher
  that tries alternatives in Python's order: the left branch of \<^verbatim>\<open>|\<close> first, one more
  round of a greedy repetition before stopping. \<open>Rep m n r\<close> is \<^verbatim>\<open>r{m,n}\<close> (\<open>None\<close>: no upper
  bound), so \<^verbatim>\<open>r?\<close>, \<^verbatim>\<open>r*\<close> and \<^verbatim>\<open>r+\<close> are \<open>Opt\<close>, \<open>Star\<close> and \<open>Plus\<close> below. \<open>Grp k r\<close> is the
  capturing group number \<open>k\<close>; a group that does not capture is its body.
\<close>

datatype citem =
    Ch char           \<comment> \<open>a character\<close>
  | Rng char char     \<comment> \<open>a range \<^verbatim>\<open>a-z\<close>\<close>
  | CDigit            \<comment> \<open>\<^verbatim>\<open>\d\<close>\<close>
  | CWord             \<comment> \<open>\<^verbatim>\<open>\w\<close>\<close>
  | CSpace            \<comment> \<open>\<^verbatim>\<open>\s\<close>\<close>

datatype regex =
    Eps
  | Lit string                   \<comment> \<open>literal text\<close>
  | Cls "citem list"             \<comment> \<open>\<^verbatim>\<open>[...]\<close>, also \<^verbatim>\<open>\d\<close>, \<^verbatim>\<open>\w\<close>, \<^verbatim>\<open>\s\<close> alone\<close>
  | NCls "citem list"            \<comment> \<open>\<^verbatim>\<open>[^...]\<close>, also \<^verbatim>\<open>\D\<close>, \<^verbatim>\<open>\W\<close>, \<^verbatim>\<open>\S\<close>\<close>
  | Seq regex regex
  | Alt regex regex
  | Rep nat "nat option" regex
  | Grp nat regex
  | WordB                        \<comment> \<open>\<^verbatim>\<open>\b\<close>\<close>
  | Bol                          \<comment> \<open>\<^verbatim>\<open>^\<close>\<close>
  | Eol                          \<comment> \<open>\<^verbatim>\<open>$\<close>\<close>

definition Opt :: "regex \<Rightarrow> regex" where
  "Opt r = Rep 0 (Some 1) r"

definition Star :: "regex \<Rightarrow> regex" where
  "Star r = Rep 0 None r"

definition Plus :: "regex \<Rightarrow> regex" where
  "Plus r = Rep 1 None r"

definition Times :: "nat \<Rightarrow> regex \<Rightarrow> regex" where
  "Times n r = Rep n (Some n) r"

definition seq :: "regex list \<Rightarrow> regex" where
  "seq rs = foldr Seq rs Eps"

definition alt :: "regex list \<Rightarrow> regex" where
  "alt rs = (case rs of [] \<Rightarrow> NCls [Rng (CHR 0x00) (CHR 0xFF)] | _ \<Rightarrow> foldr Alt (butlast rs) (last rs))"

fun in_citem :: "char \<Rightarrow> citem \<Rightarrow> bool" where
  "in_citem c (Ch d) = (c = d)"
| "in_citem c (Rng a b) = (a \<le> c \<and> c \<le> b)"
| "in_citem c CDigit = is_digit c"
| "in_citem c CWord = is_word c"
| "in_citem c CSpace = is_space c"

text \<open>
  Membership in a class; under \<^verbatim>\<open>re.IGNORECASE\<close> (\<open>ic\<close>) a character also matches through
  its other case.
\<close>

definition in_class :: "bool \<Rightarrow> citem list \<Rightarrow> char \<Rightarrow> bool" where
  "in_class ic items c =
     (\<exists>i \<in> set items. in_citem c i \<or> (ic \<and> (in_citem (lower_char c) i \<or> in_citem (upper_char c) i)))"

definition char_eq :: "bool \<Rightarrow> char \<Rightarrow> char \<Rightarrow> bool" where
  "char_eq ic a b = (a = b \<or> (ic \<and> lower_char a = lower_char b))"

text \<open>
  A matcher state: the character before the current position (\<open>None\<close> at the start of the
  string), the text still to read, and the groups captured so far, the latest first.
\<close>

type_synonym mstate = "char option \<times> string \<times> (nat \<times> string) list"

fun lit_run :: "bool \<Rightarrow> string \<Rightarrow> mstate \<Rightarrow> mstate list" where
  "lit_run ic [] st = [st]"
| "lit_run ic (c # cs) (p, [], g) = []"
| "lit_run ic (c # cs) (p, x # xs, g) =
     (if char_eq ic c x then lit_run ic cs (Some x, xs, g) else [])"

definition is_word_opt :: "char option \<Rightarrow> bool" where
  "is_word_opt c = (case c of None \<Rightarrow> False | Some x \<Rightarrow> is_word x)"

definition next_char :: "string \<Rightarrow> char option" where
  "next_char s = (case s of [] \<Rightarrow> None | x # _ \<Rightarrow> Some x)"

text \<open>
  Greedy repetition of a matcher \<open>f\<close>, with the states in the order backtracking visits
  them. A round counts only when it reads at least one character (every repeated pattern
  of the parser does), so the first argument, the length of the text left, bounds the
  rounds and never cuts a match off.
\<close>

fun rep_run ::
  "nat \<Rightarrow> (mstate \<Rightarrow> mstate list) \<Rightarrow> nat \<Rightarrow> nat option \<Rightarrow> mstate \<Rightarrow> mstate list" where
  "rep_run 0 f m n st = (if m = 0 then [st] else [])"
| "rep_run (Suc k) f m n st =
     (if n = Some 0 then []
      else concat (map (rep_run k f (m - 1) (map_option (\<lambda>x. x - 1) n))
             (filter (\<lambda>st'. length (fst (snd st')) < length (fst (snd st))) (f st))))
     @ (if m = 0 then [st] else [])"

primrec run :: "regex \<Rightarrow> bool \<Rightarrow> mstate \<Rightarrow> mstate list" where
  "run Eps ic st = [st]"
| "run (Lit cs) ic st = lit_run ic cs st"
| "run (Cls items) ic st =
     (case fst (snd st) of
        [] \<Rightarrow> []
      | x # xs \<Rightarrow> if in_class ic items x then [(Some x, xs, snd (snd st))] else [])"
| "run (NCls items) ic st =
     (case fst (snd st) of
        [] \<Rightarrow> []
      | x # xs \<Rightarrow> if in_class ic items x then [] else [(Some x, xs, snd (snd st))])"
| "run (Seq a b) ic st = concat (map (run b ic) (run a ic st))"
| "run (Alt a b) ic st = run a ic st @ run b ic st"
| "run (Rep m n r) ic st = rep_run (length (fst (snd st))) (run r ic) m n st"
| "run (Grp k r) ic st =
     map (\<lambda>st'. (fst st', fst (snd st'),
                  (k, take (length (fst (snd st)) - length (fst (snd st'))) (fst (snd st)))
                  # snd (snd st')))
       (run r ic st)"
| "run WordB ic st =
     (if is_word_opt (fst st) \<noteq> is_word_opt (next_char (fst (snd st))) then [st] else [])"
| "run Bol ic st = (if fst st = None then [st] else [])"
| "run Eol ic st =
     (if fst (snd st) = [] \<or> fst (snd st) = [CHR 0x0A] then [st] else [])"

text \<open>A match: the text matched and the groups.\<close>

type_synonym rmatch = "string \<times> (nat \<times> string) list"

definition match_at :: "regex \<Rightarrow> bool \<Rightarrow> char option \<Rightarrow> string \<Rightarrow> rmatch option" where
  "match_at r ic p s =
     (case run r ic (p, s, []) of
        [] \<Rightarrow> None
      | st' # _ \<Rightarrow> Some (take (length s - length (fst (snd st'))) s, snd (snd st')))"

text \<open>\<^verbatim>\<open>re.match(r, s)\<close>: a match at the start of \<open>s\<close>.\<close>

definition re_match :: "regex \<Rightarrow> bool \<Rightarrow> string \<Rightarrow> rmatch option" where
  "re_match r ic s = match_at r ic None s"

text \<open>\<^verbatim>\<open>re.search(r, s)\<close>: the match at the leftmost position that has one.\<close>

fun search_from :: "regex \<Rightarrow> bool \<Rightarrow> char option \<Rightarrow> string \<Rightarrow> rmatch option" where
  "search_from r ic p [] = match_at r ic p []"
| "search_from r ic p (c # cs) =
     (case match_at r ic p (c # cs) of
        Some m \<Rightarrow> Some m
      | None \<Rightarrow> search_from r ic (Some c) cs)"

definition re_search :: "regex \<Rightarrow> bool \<Rightarrow> string \<Rightarrow> rmatch option" where
  "re_search r ic s = search_from r ic None s"

text \<open>\<^verbatim>\<open>m.group(k)\<close> of a group that took part in the match.\<close>

definition group :: "rmatch \<Rightarrow> nat \<Rightarrow> string option" where
  "group m k = (if k = 0 then Some (fst m) else map_of (snd m) k)"

text \<open>
  \<^verbatim>\<open>re.sub(r, repl, s)\<close> for a pattern that matches no empty text and a replacement without
  group references: the matches are replaced from left to right.
\<close>

function sub_from :: "regex \<Rightarrow> bool \<Rightarrow> string \<Rightarrow> char option \<Rightarrow> string \<Rightarrow> string" where
  "sub_from r ic repl p [] = []"
| "sub_from r ic repl p (c # cs) =
     (case run r ic (p, c # cs, []) of
        [] \<Rightarrow> c # sub_from r ic repl (Some c) cs
      | st' # _ \<Rightarrow>
          if length (fst (snd st')) < length (c # cs)
          then repl @ sub_from r ic repl (fst st') (fst (snd st'))
          else c # sub_from r ic repl (Some c) cs)"
  by pat_completeness auto
termination
  by (relation "measure (\<lambda>(r, ic, repl, p, s). length s)") auto

definition re_sub :: "regex \<Rightarrow> bool \<Rightarrow> string \<Rightarrow> string \<Rightarrow> string" where
  "re_sub r ic repl s = sub_from r ic repl None s"


section \<open>Section segmenter (src/parsers/base\_parser.py)\<close>

datatype SectionType =
    HEADER | CONTACT | SUMMARY | SKILLS | EXPERIENCE | EDUCATION | CERTIFICATIONS
  | PROJECTS | ACCOMPLISHMENTS | LANGUAGES | UNKNOWN

definition spaces :: regex where
  "spaces = Plus (Cls [CSpace])"

text \<open>\<^verbatim>\<open>self.section_patterns\<close>, in the order of the dictionary.\<close>

definition section_patterns :: "(SectionType \<times> regex list) list" where
  "section_patterns =
     [(SUMMARY,
        [seq [Bol, Opt (Grp 1 (seq [Lit ''professional'', spaces])), Lit ''summary'', Eol],
         seq [Bol, Opt (Grp 1 (seq [Lit ''career'', spaces])), Lit ''objective'', Eol],
         seq [Bol, Lit ''profile'', Eol],
         seq [Bol, Lit ''about'', Opt (Grp 1 (seq [spaces, Lit ''me''])), Eol],
         seq [Bol, Lit ''overview'', Eol],
         seq [Bol, Lit ''statement'', Eol],
         seq [Bol, Lit ''career'', spaces, Lit ''highlight'', Opt (Lit ''s''), Eol]]),
      (EXPERIENCE,
        [seq [Bol, Opt (Grp 1 (seq [Lit ''professional'', spaces])), Lit ''experience'', Eol],
         seq [Bol, Lit ''work'', spaces, Grp 1 (alt [Lit ''experience'', Lit ''history'']), Eol],
         seq [Bol, Lit ''employment'', Opt (Grp 1 (seq [spaces, Lit ''history''])), Eol],
         seq [Bol, Lit ''career'', spaces, Lit ''history'', Eol],
         seq [Bol, Lit ''professional'', spaces, Lit ''background'', Eol],
         seq [Bol, Lit ''relevant'', spaces, Lit ''experience'', Eol]]),
      (EDUCATION,
        [seq [Bol, Lit ''education'',
              Opt (Grp 1 (seq [spaces, Lit ''and'', spaces, Lit ''training''])), Eol],
         seq [Bol, Lit ''academic'', spaces, Grp 1 (alt [Lit ''background'', Lit ''history'']), Eol],
         seq [Bol, Lit ''academic'', spaces, Lit ''credentials'', Eol],
         seq [Bol, Lit ''qualifications'', Eol],
         seq [Bol, Lit ''training'', Eol],
         seq [Bol, Lit ''education'', spaces, Lit ''&'', spaces, Lit ''certification'',
              Opt (Lit ''s''), Eol]]),
      (SKILLS,
        [seq [Bol, Opt (Grp 1 (seq [Lit ''technical'', spaces])), Lit ''skill'', Opt (Lit ''s''), Eol],
         seq [Bol, Lit ''core'', spaces, Lit ''competenc'', Grp 1 (alt [Lit ''y'', Lit ''ies'']), Eol],
         seq [Bol, Lit ''area'', Opt (Lit ''s''), spaces, Lit ''of'', spaces, Lit ''expertise'', Eol],
         seq [Bol, Lit ''technical'', spaces, Lit ''expertise'', Eol],
         seq [Bol, Lit ''skill'', spaces, Lit ''highlight'', Opt (Lit ''s''), Eol],
         seq [Bol, Lit ''qualifications'', Eol],
         seq [Bol, Lit ''capabilities'', Eol]]),
      (CERTIFICATIONS,
        [seq [Bol, Lit ''certification'', Opt (Lit ''s''), Eol],
         seq [Bol, Lit ''license'', Opt (Lit ''s''),
              Opt (Grp 1 (seq [spaces, Lit ''and'', spaces, Lit ''certification'', Opt (Lit ''s'')])),
              Eol],
         seq [Bol, Lit ''professional'', spaces, Lit ''certification'', Opt (Lit ''s''), Eol],
         seq [Bol, Lit ''credential'', Opt (Lit ''s''), Eol]]),
      (PROJECTS,
        [seq [Bol, Lit ''project'', Opt (Lit ''s''), Eol],
         seq [Bol, Opt (Grp 1 (seq [Lit ''personal'', spaces])), Lit ''portfolio'', Eol],
         seq [Bol, Lit ''key'', spaces, Lit ''project'', Opt (Lit ''s''), Eol],
         seq [Bol, Lit ''notable'', spaces, Lit ''project'', Opt (Lit ''s''), Eol]]),
      (ACCOMPLISHMENTS,
        [seq [Bol, Lit ''accomplishment'', Opt (Lit ''s''), Eol],
         seq [Bol, Lit ''achievement'', Opt (Lit ''s''), Eol],
         seq [Bol, Lit ''award'', Opt (Lit ''s''),
              Opt (Grp 1 (seq [spaces, Lit ''and'', spaces, Lit ''honor'', Opt (Lit ''s'')])), Eol],
         seq [Bol, Lit ''honor'', Opt (Lit ''s''),
              Opt (Grp 1 (seq [spaces, Lit ''and'', spaces, Lit ''award'', Opt (Lit ''s'')])), Eol],
         seq [Bol, Lit ''recognition'', Eol],
         seq [Bol, Lit ''notable'', spaces, Lit ''achievement'', Opt (Lit ''s''), Eol]])]"

text \<open>
  \<^verbatim>\<open>_identify_section_header\<close>: the first section type, in the order of the table, one of
  whose patterns matches the cleaned line.
\<close>

definition clean_header_line :: "string \<Rightarrow> string" where
  "clean_header_line line =
     re_sub (seq [Bol, Plus (NCls [CWord])]) False []
       (re_sub (seq [Plus (Cls [Ch CHR '':'', Ch CHR ''-'', CSpace]), Eol]) False []
          (lower (strip line)))"

fun first_section :: "(SectionType \<times> regex list) list \<Rightarrow> string \<Rightarrow> SectionType option" where
  "first_section [] clean_line = None"
| "first_section ((section_type, patterns) # rest) clean_line =
     (if \<exists>pattern \<in> set patterns. re_match pattern False clean_line \<noteq> None
      then Some section_type
      else first_section rest clean_line)"

definition identify_section_header :: "string \<Rightarrow> SectionType option" where
  "identify_section_header line =
     (let clean_line = clean_header_line line
      in if length clean_line > 50 then None
         else first_section section_patterns clean_line)"

text \<open>
  The state of the loop of \<^verbatim>\<open>detect_sections\<close>: the dictionary \<open>sections\<close> (an association
  list in insertion order), \<open>current_section\<close> and \<open>current_content\<close>. The variable
  \<^verbatim>\<open>section_start_idx\<close> is written and never read, and is left out. The field \<open>closed\<close> is
  not in the source: it is a history of the loop, to which each closing of a section
  (at a header and at the end of the text) appends the section type and the content
  \<^verbatim>\<open>'\n'.join(current_content).strip()\<close> the section has at that moment, saved or not.
\<close>

record ds_state =
  sections :: "(SectionType \<times> string) list"
  current_section :: SectionType
  current_content :: "string list"
  closed :: "(SectionType \<times> string) list"

text \<open>
  "Save previous section" and "Save last section": \<^verbatim>\<open>sections[current_section] = content\<close>
  when \<open>current_content\<close> is not empty and the stripped content is not empty.
\<close>

definition save_section :: "ds_state \<Rightarrow> ds_state" where
  "save_section st =
     (let content = strip (join [CHR 0x0A] (current_content st));
          st' = (if current_content st \<noteq> [] then
                   (if content \<noteq> [] then
                      st\<lparr>sections := AList.update (current_section st) content (sections st)\<rparr>
                    else st)
                 else st)
      in st'\<lparr>closed := closed st @ [(current_section st, content)]\<rparr>)"

definition detect_step :: "ds_state \<Rightarrow> string \<Rightarrow> ds_state" where
  "detect_step st line =
     (if strip line = [] then
        (if current_content st \<noteq> [] then st\<lparr>current_content := current_content st @ [[]]\<rparr>
         else st)
      else
        (case identify_section_header line of
           Some section_type \<Rightarrow>
             (if section_type \<noteq> UNKNOWN then
                (save_section st)\<lparr>current_section := section_type, current_content := []\<rparr>
              else st\<lparr>current_content := current_content st @ [line]\<rparr>)
         | None \<Rightarrow> st\<lparr>current_content := current_content st @ [line]\<rparr>))"

definition detect_init :: ds_state where
  "detect_init = \<lparr>sections = [], current_section = HEADER, current_content = [], closed = []\<rparr>"

definition detect_final :: "string \<Rightarrow> ds_state" where
  "detect_final text = save_section (foldl detect_step detect_init (split_on (CHR 0x0A) text))"

definition detect_sections :: "string \<Rightarrow> (SectionType \<times> string) list" where
  "detect_sections text = sections (detect_final text)"

text \<open>The sections closed while \<open>text\<close> is processed, with their contents, in order.\<close>

definition closed_sections :: "string \<Rightarrow> (SectionType \<times> string) list" where
  "closed_sections text = closed (detect_final text)"

text \<open>A line the loop takes as a section header.\<close>

definition is_header_line :: "string \<Rightarrow> bool" where
  "is_header_line line =
     (case identify_section_header line of
        Some section_type \<Rightarrow> section_type \<noteq> UNKNOWN
      | None \<Rightarrow> False)"


text \<open>
  The closed sections that were saved: those with a content that is not empty. (When
  \<open>current_content\<close> is empty the joined content is empty, so the two tests of the source
  come to this one.)
\<close>

definition saved_of :: "(SectionType \<times> string) list \<Rightarrow> (SectionType \<times> string) list" where
  "saved_of cl = filter (\<lambda>kc. snd kc \<noteq> []) cl"

text \<open>
  A line is covered in a state of the loop when it waits in \<open>current_content\<close> or lies in
  a block of lines that was closed.
\<close>

definition covered :: "ds_state \<Rightarrow> string \<Rightarrow> bool" where
  "covered st l =
     (l \<in> set (current_content st)
      \<or> (\<exists>kc \<in> set (closed st). \<exists>block. l \<in> set block \<and> snd kc = strip (join [CHR 0x0A] block)))"

text \<open>Texts used to run the segmenter.\<close>

definition text_two_skills :: string where
  "text_two_skills =
     ''Jane Doe\<newline>Skills\<newline>Python\<newline>\<newline>Java\<newline>Education:\<newline>MIT\<newline>Skills\<newline>Rust\<newline>Skills''"

definition text_empty_repeat :: string where
  "text_empty_repeat = ''Skills\<newline>Python\<newline>Skills''"


section \<open>Records of the parser (src/parsers/base\_parser.py)\<close>

text \<open>
  The dataclasses \<^verbatim>\<open>Experience\<close> and \<^verbatim>\<open>Education\<close>. \<^verbatim>\<open>__post_init__\<close> replaces a missing
  \<open>description\<close> or \<open>honors\<close> by the empty list, so these two fields are lists.
\<close>

record Experience =
  company :: "string option"
  title :: "string option"
  location :: "string option"
  start_date :: "string option"
  end_date :: "string option"
  description :: "string list"
  raw_text :: "string option"

record Education =
  degree :: "string option"
  field :: "string option"
  school :: "string option"
  location :: "string option"
  graduation_year :: "string option"
  gpa :: "string option"
  honors :: "string list"
  raw_text :: "string option"


section \<open>Contact extraction (src/parsers/base\_parser.py)\<close>

record ContactInfo =
  name :: "string option"
  email :: "string option"
  phone :: "string option"
  linkedin :: "string option"
  github :: "string option"
  location :: "string option"
  website :: "string option"

definition digit :: regex where
  "digit = Cls [CDigit]"

definition sep_class :: regex where
  "sep_class = Cls [Ch CHR ''-'', Ch CHR ''.'', CSpace]"

definition email_pattern :: regex where
  "email_pattern =
     seq [WordB,
          Plus (Cls [Rng CHR ''A'' CHR ''Z'', Rng CHR ''a'' CHR ''z'', Rng CHR ''0'' CHR ''9'',
                     Ch CHR ''.'', Ch CHR ''_'', Ch CHR ''%'', Ch CHR ''+'', Ch CHR ''-'']),
          Lit ''@'',
          Plus (Cls [Rng CHR ''A'' CHR ''Z'', Rng CHR ''a'' CHR ''z'', Rng CHR ''0'' CHR ''9'',
                     Ch CHR ''.'', Ch CHR ''-'']),
          Lit ''.'',
          Rep 2 None (Cls [Rng CHR ''A'' CHR ''Z'', Ch CHR ''|'', Rng CHR ''a'' CHR ''z'']),
          WordB]"

definition phone_patterns :: "regex list" where
  "phone_patterns =
     [seq [Opt (seq [Opt (Lit ''+''), Lit ''1'', Opt sep_class]),
           Opt (Lit ''(''), Times 3 digit, Opt (Lit '')''), Opt sep_class,
           Times 3 digit, Opt sep_class, Times 4 digit],
      seq [WordB, Times 3 digit, sep_class, Times 3 digit, sep_class, Times 4 digit, WordB],
      seq [Lit ''('', Times 3 digit, Lit '')'', Star (Cls [CSpace]), Times 3 digit, Lit ''-'',
           Times 4 digit]]"

definition year_pattern :: regex where
  "year_pattern = seq [Bol, Grp 1 (alt [Lit ''19'', Lit ''20'']), Times 2 digit, Eol]"

definition linkedin_pattern :: regex where
  "linkedin_pattern =
     seq [Opt (seq [Lit ''http'', Opt (Lit ''s''), Lit ''://'']), Opt (Lit ''www.''),
          Lit ''linkedin.com/'', alt [Lit ''in'', Lit ''pub''], Lit ''/'',
          Grp 1 (Plus (Cls [CWord, Ch CHR ''-'']))]"

definition github_pattern :: regex where
  "github_pattern =
     seq [Opt (seq [Lit ''http'', Opt (Lit ''s''), Lit ''://'']), Opt (Lit ''www.''),
          Lit ''github.com/'', Grp 1 (Plus (Cls [CWord, Ch CHR ''-'']))]"

definition website_pattern :: regex where
  "website_pattern =
     Grp 1 (seq [Lit ''http'', Opt (Lit ''s''), Lit ''://'',
                 Plus (Cls [CWord, Ch CHR ''.'', Ch CHR ''-'']),
                 Opt (seq [Lit ''/'', Star (NCls [CSpace])])])"

definition location_pattern :: regex where
  "location_pattern =
     seq [Grp 1 (seq [Cls [Rng CHR ''A'' CHR ''Z''], Plus (Cls [Rng CHR ''a'' CHR ''z'']),
                      Star (seq [spaces, Cls [Rng CHR ''A'' CHR ''Z''],
                                 Plus (Cls [Rng CHR ''a'' CHR ''z''])])]),
          Opt (Lit '',''), Star (Cls [CSpace]),
          Grp 2 (Times 2 (Cls [Rng CHR ''A'' CHR ''Z''])), WordB]"

definition contact_line_pattern :: regex where
  "contact_line_pattern =
     alt [Lit ''@'', seq [Times 3 digit, sep_class, Times 3 digit], Lit ''http'', Lit ''www.'']"

definition name_word_pattern :: regex where
  "name_word_pattern =
     seq [Bol, Plus (Cls [Rng CHR ''A'' CHR ''Z'', Rng CHR ''a'' CHR ''z'', Ch (CHR 0x27),
                          Ch CHR ''-'', Ch CHR ''.'']), Eol]"

text \<open>
  The test \<^verbatim>\<open>word[0].isupper() or (len(word) <= 2 and word.endswith('.'))\<close> on a word of
  \<^verbatim>\<open>line.split()\<close>, which is never empty.
\<close>

definition capitalised :: "string \<Rightarrow> bool" where
  "capitalised word =
     ((case word of [] \<Rightarrow> False | c # _ \<Rightarrow> is_upper c)
      \<or> (length word \<le> 2 \<and> suffix ''.'' word))"

text \<open>The conditions under which the loop of \<^verbatim>\<open>_extract_name\<close> appends the stripped line.\<close>

definition looks_like_name :: "string option \<Rightarrow> string \<Rightarrow> bool" where
  "looks_like_name email_opt line =
     (line \<noteq> []
      \<and> \<not> (case email_opt of None \<Rightarrow> False | Some e \<Rightarrow> e \<noteq> [] \<and> sublist e line)
      \<and> re_search contact_line_pattern False line = None
      \<and> identify_section_header line = None
      \<and> (let words = split_ws line in
           2 \<le> length words \<and> length words \<le> 4
           \<and> (\<forall>word \<in> set words. capitalised word)
           \<and> (\<forall>word \<in> set words. re_match name_word_pattern False word \<noteq> None)
           \<and> \<not> (\<exists>keyword \<in> set [''summary'', ''objective'', ''highlights'', ''focused'',
                                     ''driven'', ''results'']. sublist keyword (lower line))))"

definition extract_name :: "string \<Rightarrow> string option \<Rightarrow> string option" where
  "extract_name text email_opt =
     (let lines = take 10 (split_on (CHR 0x0A) text);
          potential_names = filter (looks_like_name email_opt) (map strip lines)
      in case potential_names of [] \<Rightarrow> None | n # _ \<Rightarrow> Some n)"

text \<open>
  The loop over the phone patterns: the first pattern whose match is not a bare year sets
  the phone and ends the loop.
\<close>

fun extract_phone :: "regex list \<Rightarrow> string \<Rightarrow> string option" where
  "extract_phone [] header_text = None"
| "extract_phone (pattern # rest) header_text =
     (case re_search pattern False header_text of
        None \<Rightarrow> extract_phone rest header_text
      | Some phone_match \<Rightarrow>
          (let phone = fst phone_match in
           if re_match year_pattern False (strip phone) = None then
             (let digits = re_sub (NCls [CDigit]) False [] phone;
                  digits = (if length digits = 11 \<and> prefix ''1'' digits then drop 1 digits
                            else digits)
              in if length digits = 10
                 then Some (''('' @ take 3 digits @ '') '' @ take 3 (drop 3 digits) @ ''-''
                            @ take 4 (drop 6 digits))
                 else Some phone)
           else extract_phone rest header_text))"

definition extract_contact_info :: "string \<Rightarrow> ContactInfo" where
  "extract_contact_info text =
     (let header_text = take 1000 text;
          email_v = map_option fst (re_search email_pattern False header_text);
          phone_v = extract_phone phone_patterns header_text;
          linkedin_v =
            (case re_search linkedin_pattern True header_text of
               None \<Rightarrow> None
             | Some m \<Rightarrow> map_option (\<lambda>g. ''linkedin.com/in/'' @ g) (group m 1));
          github_v =
            (case re_search github_pattern True header_text of
               None \<Rightarrow> None
             | Some m \<Rightarrow> map_option (\<lambda>g. ''github.com/'' @ g) (group m 1));
          website_v =
            (case re_search website_pattern False header_text of
               None \<Rightarrow> None
             | Some m \<Rightarrow>
                 (case group m 1 of
                    None \<Rightarrow> None
                  | Some site \<Rightarrow>
                      if \<not> sublist ''linkedin.com'' site \<and> \<not> sublist ''github.com'' site
                      then Some (strip (rev (dropWhile (\<lambda>c. c = CHR ''/'') (rev site))))
                      else None));
          name_v = extract_name header_text email_v;
          location_v =
            (case re_search location_pattern False header_text of
               None \<Rightarrow> None
             | Some m \<Rightarrow>
                 (case (group m 1, group m 2) of
                    (Some city, Some st) \<Rightarrow> Some (city @ '', '' @ st)
                  | _ \<Rightarrow> None))
      in \<lparr>name = name_v, email = email_v, phone = phone_v, linkedin = linkedin_v,
          github = github_v, location = location_v, website = website_v\<rparr>)"

definition jane_header :: string where
  "jane_header =
     ''Jane A. Doe\<newline>jane.doe@example.com\<newline>(555) 123-4567\<newline>linkedin.com/in/janedoe''"


section \<open>The parser's entry point (src/parsers/base\_parser.py)\<close>

text \<open>\<^verbatim>\<open>SectionType.value\<close>.\<close>

fun section_value :: "SectionType \<Rightarrow> string" where
  "section_value HEADER = ''header''"
| "section_value CONTACT = ''contact''"
| "section_value SUMMARY = ''summary''"
| "section_value SKILLS = ''skills''"
| "section_value EXPERIENCE = ''experience''"
| "section_value EDUCATION = ''education''"
| "section_value CERTIFICATIONS = ''certifications''"
| "section_value PROJECTS = ''projects''"
| "section_value ACCOMPLISHMENTS = ''accomplishments''"
| "section_value LANGUAGES = ''languages''"
| "section_value UNKNOWN = ''unknown''"

text \<open>The name of the type of a value, as the message of an AttributeError prints it.\<close>

fun type_name :: "pyval \<Rightarrow> string" where
  "type_name PNone = ''NoneType''"
| "type_name (PBool b) = ''bool''"
| "type_name (PInt i) = ''int''"
| "type_name (PStr s) = ''str''"
| "type_name (PList xs) = ''list''"
| "type_name (PDict kvs) = ''dict''"

definition quoted :: "string \<Rightarrow> string" where
  "quoted s = CHR 0x27 # s @ [CHR 0x27]"

text \<open>\<^verbatim>\<open>text.replace('\r\n', '\n')\<close>.\<close>

fun replace_crlf :: "string \<Rightarrow> string" where
  "replace_crlf (c # d # cs) =
     (if c = CHR 0x0D \<and> d = CHR 0x0A then CHR 0x0A # replace_crlf cs
      else c # replace_crlf (d # cs))"
| "replace_crlf cs = cs"

text \<open>
  \<^verbatim>\<open>ResumeParser.clean_text\<close> on a string. The bullet characters that the source replaces by
  one bullet are outside ASCII, so that substitution changes no text of the model.
\<close>

definition clean_str :: "string \<Rightarrow> string" where
  "clean_str text =
     (let text = replace_char (CHR 0x0D) (CHR 0x0A) (replace_crlf text);
          text = re_sub (Plus (Cls [Ch CHR '' '', Ch (CHR 0x09)])) False '' '' text;
          text = re_sub (Rep 3 None (Lit [CHR 0x0A])) False [CHR 0x0A, CHR 0x0A] text;
          lines = split_on (CHR 0x0A) text;
          cleaned_lines = map strip lines
      in join [CHR 0x0A] cleaned_lines)"

text \<open>
  \<^verbatim>\<open>clean_text\<close> on any value the caller passes: a falsy value gives the empty string, a
  string is cleaned, and on any other value \<^verbatim>\<open>text.replace\<close> raises an AttributeError,
  returned as \<open>Inl\<close> of its message.
\<close>

definition clean_text :: "pyval \<Rightarrow> string + string" where
  "clean_text text =
     (if \<not> truthy text then Inr []
      else (case text of
              PStr s \<Rightarrow> Inr (clean_str s)
            | _ \<Rightarrow> Inl (quoted (type_name text) @ '' object has no attribute ''
                         @ quoted ''replace'')))"

text \<open>
  The calls \<^verbatim>\<open>extract_skills\<close>, \<^verbatim>\<open>extract_experience\<close> and \<^verbatim>\<open>extract_education\<close> are not
  modelled. What \<^verbatim>\<open>parse\<close> needs of them is their outcome on the text at hand: the value
  returned, or \<open>Inl\<close> of the message of an exception. The outcomes are a parameter of the
  model of \<^verbatim>\<open>parse\<close>, which therefore covers whatever the three calls do.
\<close>

record extraction =
  skills_out :: "string + (string \<times> string list) list"
  experience_out :: "string + Experience list"
  education_out :: "string + Education list"

definition opt_str :: "string option \<Rightarrow> pyval" where
  "opt_str v = (case v of None \<Rightarrow> PNone | Some s \<Rightarrow> PStr s)"

definition experience_dict :: "Experience \<Rightarrow> pyval" where
  "experience_dict e =
     PDict [(''company'', opt_str (company e)),
            (''title'', opt_str (title e)),
            (''location'', opt_str (Experience.location e)),
            (''start_date'', opt_str (start_date e)),
            (''end_date'', opt_str (end_date e)),
            (''description'', PList (map PStr (description e)))]"

definition education_dict :: "Education \<Rightarrow> pyval" where
  "education_dict e =
     PDict [(''degree'', opt_str (degree e)),
            (''field'', opt_str (field e)),
            (''school'', opt_str (school e)),
            (''location'', opt_str (Education.location e)),
            (''graduation_year'', opt_str (graduation_year e)),
            (''gpa'', opt_str (gpa e)),
            (''honors'', PList (map PStr (honors e)))]"

text \<open>The body of the \<^verbatim>\<open>try\<close> block: the result built, or the message of the exception.\<close>

definition parse_body :: "pyval \<Rightarrow> extraction \<Rightarrow> string + pydict" where
  "parse_body text outs =
     (case clean_text text of
        Inl e \<Rightarrow> Inl e
      | Inr text \<Rightarrow>
          (let sections = detect_sections text;
               contact = extract_contact_info text
           in case skills_out outs of
                Inl e \<Rightarrow> Inl e
              | Inr skills \<Rightarrow>
                  (case experience_out outs of
                     Inl e \<Rightarrow> Inl e
                   | Inr experience \<Rightarrow>
                       (case education_out outs of
                          Inl e \<Rightarrow> Inl e
                        | Inr education \<Rightarrow>
                            Inr [(''contact'',
                                   PDict [(''name'', opt_str (name contact)),
                                          (''email'', opt_str (email contact)),
                                          (''phone'', opt_str (phone contact)),
                                          (''linkedin'', opt_str (linkedin contact)),
                                          (''github'', opt_str (github contact)),
                                          (''location'', opt_str (ContactInfo.location contact)),
                                          (''website'', opt_str (website contact))]),
                                 (''summary'',
                                   (case map_of sections SUMMARY of
                                      Some s \<Rightarrow> PStr (take 500 s)
                                    | None \<Rightarrow> PNone)),
                                 (''skills'',
                                   PDict (map (\<lambda>kv. (fst kv, PList (map PStr (snd kv)))) skills)),
                                 (''experience'', PList (map experience_dict experience)),
                                 (''education'', PList (map education_dict education)),
                                 (''sections'',
                                   PDict (map (\<lambda>kv. (section_value (fst kv), PStr (snd kv)))
                                            sections)),
                                 (''metadata'',
                                   PDict [(''sections_detected'',
                                            PList (map (\<lambda>kv. PStr (section_value (fst kv)))
                                                     sections)),
                                          (''parsing_success'', PBool True)])]))))"

text \<open>The dictionary the \<^verbatim>\<open>except Exception\<close> branch returns.\<close>

definition parse_failure :: "string \<Rightarrow> pydict" where
  "parse_failure e =
     [(''error'', PStr e),
      (''contact'', PDict []),
      (''skills'', PDict [(''all'', PList [])]),
      (''experience'', PList []),
      (''education'', PList []),
      (''metadata'', PDict [(''parsing_success'', PBool False)])]"

text \<open>
  \<^verbatim>\<open>ResumeParser.parse\<close>: every exception of the body (a subclass of \<^verbatim>\<open>Exception\<close>) is
  caught and turned into the failure dictionary.
\<close>

definition parse :: "pyval \<Rightarrow> extraction \<Rightarrow> pydict" where
  "parse text outs =
     (case parse_body text outs of
        Inr result \<Rightarrow> result
      | Inl e \<Rightarrow> parse_failure e)"

definition no_entries :: extraction where
  "no_entries = \<lparr>skills_out = Inr [(''all'', [])], experience_out = Inr [], education_out = Inr []\<rparr>"


definition failing_experience :: extraction where
  "failing_experience =
     \<lparr>skills_out = Inr [(''all'', [])],
      experience_out = Inl ''list index out of range'',
      education_out = Inr []\<rparr>"


text \<open>
  Strings in which every space character is a single blank: the results of
  \<open>collapse_ws\<close>, and the strings it leaves as they are.
\<close>

fun single_spaced :: "string \<Rightarrow> bool" where
  "single_spaced [] = True"
| "single_spaced [c] = (is_space c \<longrightarrow> c = CHR '' '')"
| "single_spaced (c # d # cs) =
     ((is_space c \<longrightarrow> c = CHR '' '' \<and> \<not> is_space d) \<and> single_spaced (d # cs))"


text \<open>
  Records of the shape the scorer is written for: the list fields are lists, the skills
  and companies of the job are strings, \<^verbatim>\<open>education_required\<close> is a string that is empty or
  holds a word, the fields read from a dictionary entry of the resume are strings or
  \<^verbatim>\<open>None\<close>, and the technologies of a project are strings.
\<close>

fun is_str :: "pyval \<Rightarrow> bool" where
  "is_str (PStr s) = True"
| "is_str _ = False"

fun str_list :: "pyval \<Rightarrow> bool" where
  "str_list (PList xs) = list_all is_str xs"
| "str_list _ = False"

definition str_or_none :: "pyval \<Rightarrow> bool" where
  "str_or_none v = (v = PNone \<or> is_str v)"

definition well_formed_job :: "pydict \<Rightarrow> bool" where
  "well_formed_job job =
     (str_list (dict_get job ''required_skills'' (PList []))
      \<and> str_list (dict_get job ''preferred_skills'' (PList []))
      \<and> str_list (dict_get job ''must_have_skills'' (PList []))
      \<and> str_list (dict_get job ''preferred_companies'' (PList []))
      \<and> (case dict_get job ''education_required'' (PStr []) of
            PStr s \<Rightarrow> s = [] \<or> split_ws (lower s) \<noteq> []
          | _ \<Rightarrow> False))"

fun well_formed_entry :: "pyval \<Rightarrow> bool" where
  "well_formed_entry (PDict d) =
     (str_or_none (dict_get d ''degree'' PNone)
      \<and> str_or_none (dict_get d ''field'' PNone)
      \<and> str_or_none (dict_get d ''title'' PNone)
      \<and> str_or_none (dict_get d ''company'' PNone)
      \<and> str_list (dict_get d ''technologies'' (PList [])))"
| "well_formed_entry _ = True"

fun entry_list :: "pyval \<Rightarrow> bool" where
  "entry_list (PList xs) = list_all well_formed_entry xs"
| "entry_list _ = False"

definition well_formed_resume :: "pydict \<Rightarrow> bool" where
  "well_formed_resume resume =
     (entry_list (dict_get resume ''education'' (PList []))
      \<and> entry_list (dict_get resume ''experience'' (PList []))
      \<and> entry_list (dict_get resume ''projects'' (PList []))
      \<and> entry_list (dict_get resume ''work_experience'' (PList [])))"


section \<open>Properties of the classifier\<close>

text \<open>
  C5. For every score \<open>s\<close>, \<open>classify\<close> returns "Suitable" exactly when
  \<open>s \<ge> suitable_threshold\<close>, "Maybe Suitable" exactly when
  \<open>maybe_threshold \<le> s < suitable_threshold\<close>, and "Not Suitable" in every other case;
  a score equal to \<open>suitable_threshold\<close> is "Suitable".
\<close>

theorem classify_bands:
  "(classify self s = ''Suitable'') = (s \<ge> suitable_threshold self)
   \<and> (classify self s = ''Maybe Suitable'')
       = (maybe_threshold self \<le> s \<and> s < suitable_threshold self)
   \<and> (classify self s = ''Not Suitable'')
       = (\<not> s \<ge> suitable_threshold self
          \<and> \<not> (maybe_threshold self \<le> s \<and> s < suitable_threshold self))
   \<and> classify self (suitable_threshold self) = ''Suitable''"
  by (auto simp: classify_def)


section \<open>Properties of the rule-based scorer\<close>

lemma RULE_WEIGHTS_simps [simp]:
  "required_skill_point RULE_WEIGHTS = 10" "preferred_skill_point RULE_WEIGHTS = 3"
  "experience_title_point RULE_WEIGHTS = 5" "experience_desc_bonus RULE_WEIGHTS = 1"
  "experience_desc_bonus_cap RULE_WEIGHTS = 10" "education_full RULE_WEIGHTS = 10"
  "education_partial RULE_WEIGHTS = 5" "projects_cap RULE_WEIGHTS = 10"
  "company_point RULE_WEIGHTS = 8" "company_cap RULE_WEIGHTS = 20"
  "weights RuleBasedScorer_init = RULE_WEIGHTS"
  by (simp_all add: RULE_WEIGHTS_def RuleBasedScorer_init_def)

lemma education_entry_bounds:
  assumes "education_entry RULE_WEIGHTS job dg fl s = Some r" "0 \<le> s" "s \<le> 10"
  shows "0 \<le> snd r \<and> snd r \<le> 10"
  using assms
  by (auto simp: education_entry_def bind_eq_Some_conv split: if_splits)

lemma education_loop_bounds:
  "education_loop RULE_WEIGHTS job es s = Some s' \<Longrightarrow> 0 \<le> s \<Longrightarrow> s \<le> 10
   \<Longrightarrow> 0 \<le> s' \<and> s' \<le> 10"
proof (induction es arbitrary: s)
  case Nil
  then show ?case by simp
next
  case (Cons e es)
  show ?case
  proof (cases e)
    case (PDict d)
    with Cons.prems obtain dg fl r where
      r: "education_entry RULE_WEIGHTS job dg fl s = Some r"
      and k: "(if fst r then Some (snd r) else education_loop RULE_WEIGHTS job es (snd r)) = Some s'"
      by (auto simp: bind_eq_Some_conv)
    from education_entry_bounds [OF r Cons.prems(2,3)] k Cons.IH [of "snd r"]
    show ?thesis by (auto split: if_splits)
  next
    case (PStr x)
    with Cons.prems obtain r where
      r: "education_entry RULE_WEIGHTS job (lower x) (lower x) s = Some r"
      and k: "(if fst r then Some (snd r) else education_loop RULE_WEIGHTS job es (snd r)) = Some s'"
      by (auto simp: bind_eq_Some_conv)
    from education_entry_bounds [OF r Cons.prems(2,3)] k Cons.IH [of "snd r"]
    show ?thesis by (auto split: if_splits)
  qed (use Cons in auto)
qed

lemma experience_entry_nonneg:
  "0 \<le> fst acc \<Longrightarrow> 0 \<le> snd acc \<Longrightarrow>
   0 \<le> fst (experience_entry RULE_WEIGHTS req t d acc)
   \<and> 0 \<le> snd (experience_entry RULE_WEIGHTS req t d acc)"
  by (auto simp: experience_entry_def intro!: add_nonneg_nonneg sum_nonneg)

lemma experience_loop_nonneg:
  "experience_loop RULE_WEIGHTS req es acc = Some acc' \<Longrightarrow> 0 \<le> fst acc \<Longrightarrow> 0 \<le> snd acc
   \<Longrightarrow> 0 \<le> fst acc' \<and> 0 \<le> snd acc'"
proof (induction es arbitrary: acc)
  case Nil
  then show ?case by simp
next
  case (Cons e es)
  show ?case
  proof (cases e)
    case (PDict d)
    with Cons.prems obtain t where
      "experience_loop RULE_WEIGHTS req es
         (experience_entry RULE_WEIGHTS req t (lower (flatten_experience_description e)) acc)
       = Some acc'"
      by (auto simp: bind_eq_Some_conv)
    from Cons.IH [OF this] experience_entry_nonneg [OF Cons.prems(2,3)]
    show ?thesis by blast
  next
    case (PStr x)
    with Cons.prems have
      "experience_loop RULE_WEIGHTS req es
         (experience_entry RULE_WEIGHTS req (lower x) (lower x) acc) = Some acc'"
      by simp
    from Cons.IH [OF this] experience_entry_nonneg [OF Cons.prems(2,3)]
    show ?thesis by blast
  qed (use Cons in auto)
qed

lemma projects_loop_nonneg:
  "projects_loop req ps s = Some s' \<Longrightarrow> 0 \<le> s \<Longrightarrow> 0 \<le> s'"
proof (induction ps arbitrary: s)
  case Nil
  then show ?case by simp
next
  case (Cons p ps)
  show ?case
  proof (cases p)
    case (PDict d)
    with Cons.prems obtain techs where
      "projects_loop req ps (s + int (card (set techs \<inter> req)) * 2) = Some s'"
      by (auto simp: bind_eq_Some_conv)
    from Cons.IH [OF this] Cons.prems(2) show ?thesis by simp
  next
    case (PStr x)
    with Cons.prems
      Cons.IH [of "s + int (card (Set.filter (\<lambda>skill. sublist skill (lower x)) req \<inter> req)) * 2"]
    show ?thesis by simp
  qed (use Cons in auto)
qed

lemma company_loop_nonneg:
  "company_loop RULE_WEIGHTS prefs es s = Some s' \<Longrightarrow> 0 \<le> s \<Longrightarrow> 0 \<le> s'"
proof (induction es arbitrary: s)
  case Nil
  then show ?case by simp
next
  case (Cons e es)
  show ?case
  proof (cases e)
    case (PDict d)
    with Cons.prems obtain c where
      "company_loop RULE_WEIGHTS prefs es
         (if \<exists>p \<in> prefs. sublist p c then s + company_point RULE_WEIGHTS else s) = Some s'"
      by (auto simp: bind_eq_Some_conv)
    from Cons.IH [OF this] Cons.prems(2) show ?thesis by (simp split: if_splits)
  qed (use Cons in auto)
qed

lemma filter_nonempty_iff: "(Set.filter P A \<noteq> {}) = (\<exists>x \<in> A. P x)"
  by auto

text \<open>What a returning call of \<open>score\<close> has computed, step by step.\<close>

lemma score_unfold:
  assumes "score RuleBasedScorer_init resume job = Some r"
  shows "\<exists>required_raw preferred_raw education edu_score experience exp_acc projects proj_score
           companies_raw companies company1 work_experience company2 must_raw.
     py_iter (dict_get job ''required_skills'' (PList [])) = Some required_raw
   \<and> py_iter (dict_get job ''preferred_skills'' (PList [])) = Some preferred_raw
   \<and> py_iter (dict_get resume ''education'' (PList [])) = Some education
   \<and> education_loop RULE_WEIGHTS job education 0 = Some edu_score
   \<and> py_iter (dict_get resume ''experience'' (PList [])) = Some experience
   \<and> experience_loop RULE_WEIGHTS (normalize_skill_set required_raw) experience (0, 0)
       = Some exp_acc
   \<and> py_iter (dict_get resume ''projects'' (PList [])) = Some projects
   \<and> projects_loop (normalize_skill_set required_raw) projects 0 = Some proj_score
   \<and> py_iter (dict_get job ''preferred_companies'' (PList [])) = Some companies_raw
   \<and> those (map py_lower companies_raw) = Some companies
   \<and> company_loop RULE_WEIGHTS (set companies) experience 0 = Some company1
   \<and> py_iter (dict_get resume ''work_experience'' (PList [])) = Some work_experience
   \<and> company_loop RULE_WEIGHTS (set companies) work_experience company1 = Some company2
   \<and> py_iter (dict_get job ''must_have_skills'' (PList [])) = Some must_raw
   \<and> r = \<lparr>total =
            min (if \<exists>s \<in> normalize_skill_set must_raw. s \<notin> resume_skill_set resume
                 then max 0 (int (card (partial_match (resume_skill_set resume)
                        (normalize_skill_set required_raw)
                        (resume_skill_set resume \<inter> normalize_skill_set required_raw))) * 10
                    + int (card (partial_match (resume_skill_set resume)
                        (normalize_skill_set preferred_raw)
                        (resume_skill_set resume \<inter> normalize_skill_set preferred_raw))) * 3
                    + edu_score + min (fst exp_acc + min (snd exp_acc) 10) 15
                    + min proj_score 10 + min company2 20 - 30)
                 else int (card (partial_match (resume_skill_set resume)
                        (normalize_skill_set required_raw)
                        (resume_skill_set resume \<inter> normalize_skill_set required_raw))) * 10
                    + int (card (partial_match (resume_skill_set resume)
                        (normalize_skill_set preferred_raw)
                        (resume_skill_set resume \<inter> normalize_skill_set preferred_raw))) * 3
                    + edu_score + min (fst exp_acc + min (snd exp_acc) 10) 15
                    + min proj_score 10 + min company2 20) 100,
          parts = \<lparr>skills_score =
                     int (card (partial_match (resume_skill_set resume)
                        (normalize_skill_set required_raw)
                        (resume_skill_set resume \<inter> normalize_skill_set required_raw))) * 10
                    + int (card (partial_match (resume_skill_set resume)
                        (normalize_skill_set preferred_raw)
                        (resume_skill_set resume \<inter> normalize_skill_set preferred_raw))) * 3,
                   education_score = edu_score,
                   experience_score = min (fst exp_acc + min (snd exp_acc) 10) 15,
                   projects_score = min proj_score 10,
                   company_score = min company2 20\<rparr>,
          matched_skills = partial_match (resume_skill_set resume)
                        (normalize_skill_set required_raw)
                        (resume_skill_set resume \<inter> normalize_skill_set required_raw),
          missing_skills = normalize_skill_set required_raw
             - partial_match (resume_skill_set resume) (normalize_skill_set required_raw)
                 (resume_skill_set resume \<inter> normalize_skill_set required_raw)\<rparr>"
  using assms
  apply (simp only: score_def Let_def bind_eq_Some_conv RULE_WEIGHTS_simps
           MUST_HAVE_PENALTY_def filter_nonempty_iff option.inject add_0)
  apply (elim exE conjE)
  apply (intro exI conjI)
                apply assumption+
  apply (erule sym)
  done

text \<open>The bounds of the components, and the total from the sum of the breakdown.\<close>

lemma score_components:
  assumes "score RuleBasedScorer_init resume job = Some r"
  shows "0 \<le> skills_score (parts r)"
    and "0 \<le> education_score (parts r) \<and> education_score (parts r) \<le> 10"
    and "0 \<le> experience_score (parts r) \<and> experience_score (parts r) \<le> 15"
    and "0 \<le> projects_score (parts r) \<and> projects_score (parts r) \<le> 10"
    and "0 \<le> company_score (parts r) \<and> company_score (parts r) \<le> 20"
proof -
  from score_unfold [OF assms] obtain required_raw preferred_raw education edu_score experience
      exp_acc projects proj_score companies_raw companies company1 work_experience company2
      must_raw
    where edu: "education_loop RULE_WEIGHTS job education 0 = Some edu_score"
      and ex: "experience_loop RULE_WEIGHTS (normalize_skill_set required_raw) experience (0, 0)
                = Some exp_acc"
      and pr: "projects_loop (normalize_skill_set required_raw) projects 0 = Some proj_score"
      and c1: "company_loop RULE_WEIGHTS (set companies) experience 0 = Some company1"
      and c2: "company_loop RULE_WEIGHTS (set companies) work_experience company1 = Some company2"
      and sk: "skills_score (parts r) =
                 int (card (partial_match (resume_skill_set resume)
                        (normalize_skill_set required_raw)
                        (resume_skill_set resume \<inter> normalize_skill_set required_raw))) * 10
                 + int (card (partial_match (resume_skill_set resume)
                        (normalize_skill_set preferred_raw)
                        (resume_skill_set resume \<inter> normalize_skill_set preferred_raw))) * 3"
      and ed: "education_score (parts r) = edu_score"
      and xp: "experience_score (parts r) = min (fst exp_acc + min (snd exp_acc) 10) 15"
      and pj: "projects_score (parts r) = min proj_score 10"
      and co: "company_score (parts r) = min company2 20"
    by (elim exE conjE) simp
  show "0 \<le> skills_score (parts r)"
    unfolding sk by simp
  show "0 \<le> education_score (parts r) \<and> education_score (parts r) \<le> 10"
    using education_loop_bounds [OF edu] ed by simp
  show "0 \<le> experience_score (parts r) \<and> experience_score (parts r) \<le> 15"
    using experience_loop_nonneg [OF ex] xp by simp
  show "0 \<le> projects_score (parts r) \<and> projects_score (parts r) \<le> 10"
    using projects_loop_nonneg [OF pr] pj by simp
  from company_loop_nonneg [OF c1] have "0 \<le> company1" by simp
  from company_loop_nonneg [OF c2 this] co
  show "0 \<le> company_score (parts r) \<and> company_score (parts r) \<le> 20"
    by simp
qed

lemma score_total:
  assumes "score RuleBasedScorer_init resume job = Some r"
  shows "\<exists>must_raw. py_iter (dict_get job ''must_have_skills'' (PList [])) = Some must_raw
     \<and> total r =
         min (if \<exists>s \<in> normalize_skill_set must_raw. s \<notin> resume_skill_set resume
              then max 0 (breakdown_sum (parts r) - 30) else breakdown_sum (parts r)) 100"
  using score_unfold [OF assms]
  by (elim exE conjE) (simp add: breakdown_sum_def)

subsection \<open>The scorer returns on records of the expected shape\<close>

lemma str_list_iter:
  assumes "str_list v"
  shows "\<exists>xs. py_iter v = Some xs \<and> list_all is_str xs"
  using assms by (cases v) auto

lemma those_py_lower:
  "list_all is_str xs \<Longrightarrow> \<exists>ys. those (map py_lower xs) = Some ys"
proof (induction xs)
  case Nil
  show ?case by simp
next
  case (Cons x xs)
  then obtain ys where "those (map py_lower xs) = Some ys" by auto
  with Cons.prems show ?case by (cases x) auto
qed

lemma or_empty_lower_Some:
  "str_or_none v \<Longrightarrow> \<exists>s. or_empty_lower v = Some s"
  by (cases v) (auto simp: or_empty_lower_def str_or_none_def)

lemma entry_list_iter:
  assumes "entry_list v"
  shows "\<exists>xs. py_iter v = Some xs \<and> list_all well_formed_entry xs"
  using assms by (cases v) auto

lemma education_entry_Some:
  assumes "well_formed_job job"
  shows "\<exists>r. education_entry w job dg fl s = Some r"
proof -
  from assms obtain q where q: "dict_get job ''education_required'' (PStr []) = PStr q"
    and w: "q = [] \<or> split_ws (lower q) \<noteq> []"
    by (auto simp: well_formed_job_def split: pyval.splits)
  show ?thesis
  proof (cases "lower q = []")
    case True
    then show ?thesis by (auto simp: education_entry_def q)
  next
    case False
    then have "q \<noteq> []" by (auto simp: lower_def)
    with w obtain b bs where "split_ws (lower q) = b # bs"
      by (cases "split_ws (lower q)") auto
    with False show ?thesis by (auto simp: education_entry_def q)
  qed
qed

lemma education_loop_Some:
  assumes "well_formed_job job" "list_all well_formed_entry es"
  shows "\<exists>r. education_loop w job es s = Some r"
  using assms(2)
proof (induction es arbitrary: s)
  case Nil
  show ?case by simp
next
  case (Cons e es)
  then have IH: "\<exists>r. education_loop w job es s' = Some r" for s' by simp
  show ?case
  proof (cases e)
    case (PDict d)
    with Cons.prems obtain dg fl where
      dg: "or_empty_lower (dict_get d ''degree'' PNone) = Some dg"
      and fl: "or_empty_lower (dict_get d ''field'' PNone) = Some fl"
      using or_empty_lower_Some by fastforce
    from education_entry_Some [OF assms(1)] obtain r where
      "education_entry w job dg fl s = Some r" by blast
    with PDict dg fl IH [of "snd r"] show ?thesis by auto
  next
    case (PStr x)
    from education_entry_Some [OF assms(1)] obtain r where
      "education_entry w job (lower x) (lower x) s = Some r" by blast
    with PStr IH [of "snd r"] show ?thesis by auto
  qed (use IH in auto)
qed

lemma experience_loop_Some:
  assumes "list_all well_formed_entry es"
  shows "\<exists>r. experience_loop w req es acc = Some r"
  using assms
proof (induction es arbitrary: acc)
  case Nil
  show ?case by simp
next
  case (Cons e es)
  then have IH: "\<exists>r. experience_loop w req es acc' = Some r" for acc' by simp
  show ?case
  proof (cases e)
    case (PDict d)
    with Cons.prems obtain t where "or_empty_lower (dict_get d ''title'' PNone) = Some t"
      using or_empty_lower_Some by fastforce
    with PDict IH show ?thesis by simp
  qed (use IH in auto)
qed

lemma projects_loop_Some:
  assumes "list_all well_formed_entry ps"
  shows "\<exists>r. projects_loop req ps s = Some r"
  using assms
proof (induction ps arbitrary: s)
  case Nil
  show ?case by simp
next
  case (Cons p ps)
  then have IH: "\<exists>r. projects_loop req ps s' = Some r" for s' by simp
  show ?case
  proof (cases p)
    case (PDict d)
    with Cons.prems have "str_list (dict_get d ''technologies'' (PList []))" by simp
    from str_list_iter [OF this] obtain ts where
      ts: "py_iter (dict_get d ''technologies'' (PList [])) = Some ts" "list_all is_str ts"
      by blast
    from those_py_lower [OF ts(2)] obtain techs where "those (map py_lower ts) = Some techs"
      by blast
    with PDict ts(1) IH show ?thesis by simp
  qed (use IH in auto)
qed

lemma company_loop_Some:
  assumes "list_all well_formed_entry es"
  shows "\<exists>r. company_loop w prefs es s = Some r"
  using assms
proof (induction es arbitrary: s)
  case Nil
  show ?case by simp
next
  case (Cons e es)
  then have IH: "\<exists>r. company_loop w prefs es s' = Some r" for s' by simp
  show ?case
  proof (cases e)
    case (PDict d)
    with Cons.prems obtain c where "or_empty_lower (dict_get d ''company'' PNone) = Some c"
      using or_empty_lower_Some by fastforce
    with PDict IH show ?thesis by simp
  qed (use IH in auto)
qed

text \<open>
  On a job and a resume of the expected shape no step of \<open>score\<close> raises, so the bounds
  above are about a total that is returned.
\<close>

lemma score_returns:
  assumes "well_formed_job job" "well_formed_resume resume"
  shows "\<exists>r. score self resume job = Some r"
proof -
  let ?w = "weights self"
  from assms(1) have j: "str_list (dict_get job ''required_skills'' (PList []))"
    "str_list (dict_get job ''preferred_skills'' (PList []))"
    "str_list (dict_get job ''must_have_skills'' (PList []))"
    "str_list (dict_get job ''preferred_companies'' (PList []))"
    by (simp_all add: well_formed_job_def)
  from assms(2) have r: "entry_list (dict_get resume ''education'' (PList []))"
    "entry_list (dict_get resume ''experience'' (PList []))"
    "entry_list (dict_get resume ''projects'' (PList []))"
    "entry_list (dict_get resume ''work_experience'' (PList []))"
    by (simp_all add: well_formed_resume_def)
  from str_list_iter [OF j(1)] obtain required_raw where
    a1: "py_iter (dict_get job ''required_skills'' (PList [])) = Some required_raw" by blast
  from str_list_iter [OF j(2)] obtain preferred_raw where
    a2: "py_iter (dict_get job ''preferred_skills'' (PList [])) = Some preferred_raw" by blast
  from str_list_iter [OF j(3)] obtain must_raw where
    a3: "py_iter (dict_get job ''must_have_skills'' (PList [])) = Some must_raw" by blast
  from str_list_iter [OF j(4)] obtain companies_raw where
    a4: "py_iter (dict_get job ''preferred_companies'' (PList [])) = Some companies_raw"
    and a4': "list_all is_str companies_raw" by blast
  from those_py_lower [OF a4'] obtain companies where
    a5: "those (map py_lower companies_raw) = Some companies" by blast
  from entry_list_iter [OF r(1)] obtain education where
    b1: "py_iter (dict_get resume ''education'' (PList [])) = Some education"
    and b1': "list_all well_formed_entry education" by blast
  from entry_list_iter [OF r(2)] obtain experience where
    b2: "py_iter (dict_get resume ''experience'' (PList [])) = Some experience"
    and b2': "list_all well_formed_entry experience" by blast
  from entry_list_iter [OF r(3)] obtain projects where
    b3: "py_iter (dict_get resume ''projects'' (PList [])) = Some projects"
    and b3': "list_all well_formed_entry projects" by blast
  from entry_list_iter [OF r(4)] obtain work_experience where
    b4: "py_iter (dict_get resume ''work_experience'' (PList [])) = Some work_experience"
    and b4': "list_all well_formed_entry work_experience" by blast
  from education_loop_Some [OF assms(1) b1'] obtain edu_score where
    c1: "education_loop ?w job education 0 = Some edu_score" by blast
  from experience_loop_Some [OF b2'] obtain exp_acc where
    c2: "experience_loop ?w (normalize_skill_set required_raw) experience (0, 0) = Some exp_acc"
    by blast
  from projects_loop_Some [OF b3'] obtain proj_score where
    c3: "projects_loop (normalize_skill_set required_raw) projects 0 = Some proj_score"
    by blast
  from company_loop_Some [OF b2'] obtain company1 where
    c4: "company_loop ?w (set companies) experience 0 = Some company1" by blast
  from company_loop_Some [OF b4'] obtain company2 where
    c5: "company_loop ?w (set companies) work_experience company1 = Some company2" by blast
  show ?thesis
    unfolding score_def Let_def
    by (simp only: a1 a2 a3 a4 a5 b1 b2 b3 b4 c1 c2 c3 c4 c5 bind.bind_lunit) blast
qed

subsection \<open>Runs of the scorer, and its bounds\<close>

lemma score_resume_full:
  "score RuleBasedScorer_init resume_full job_full =
     Some \<lparr>total = 57,
           parts = \<lparr>skills_score = 30, education_score = 10, experience_score = 7,
                     projects_score = 2, company_score = 8\<rparr>,
           matched_skills = {''python'', ''aws'', ''amazon web services''},
           missing_skills = {}\<rparr>"
  by code_simp

lemma score_resume_seven_python:
  "score RuleBasedScorer_init resume_seven job_python =
     Some \<lparr>total = 40,
           parts = \<lparr>skills_score = 70, education_score = 0, experience_score = 0,
                     projects_score = 0, company_score = 0\<rparr>,
           matched_skills = {''java'', ''sql'', ''docker'', ''git'', ''linux'', ''go'', ''rust''},
           missing_skills = {}\<rparr>"
  by code_simp

lemma score_resume_seven:
  "score RuleBasedScorer_init resume_seven job_seven =
     Some \<lparr>total = 70,
           parts = \<lparr>skills_score = 70, education_score = 0, experience_score = 0,
                     projects_score = 0, company_score = 0\<rparr>,
           matched_skills = {''java'', ''sql'', ''docker'', ''git'', ''linux'', ''go'', ''rust''},
           missing_skills = {}\<rparr>"
  by code_simp


lemma score_resume_eleven:
  "score RuleBasedScorer_init resume_eleven job_eleven =
     Some \<lparr>total = 100,
           parts = \<lparr>skills_score = 110, education_score = 0, experience_score = 0,
                     projects_score = 0, company_score = 0\<rparr>,
           matched_skills = {''java'', ''sql'', ''docker'', ''git'', ''linux'', ''go'', ''rust'',
                             ''ruby'', ''perl'', ''scala'', ''kotlin''},
           missing_skills = {}\<rparr>"
  by code_simp

text \<open>
  C1. Whenever \<open>score\<close> returns, the total lies in \<open>[0, 100]\<close> and the components respect
  their caps: experience at most 15, projects at most 10, company at most 20, education at
  most 10. The experience component is \<open>min (exp_score + min desc_bonus 10) 15\<close> for the
  title points and the description bonus the experience loop has accumulated, so the
  description bonus contributes at most 10.
\<close>

theorem score_bounds:
  assumes "score RuleBasedScorer_init resume job = Some r"
  shows "0 \<le> total r \<and> total r \<le> 100
    \<and> experience_score (parts r) \<le> 15
    \<and> projects_score (parts r) \<le> 10
    \<and> company_score (parts r) \<le> 20
    \<and> education_score (parts r) \<le> 10
    \<and> (\<exists>required_raw experience exp_acc.
          py_iter (dict_get job ''required_skills'' (PList [])) = Some required_raw
        \<and> py_iter (dict_get resume ''experience'' (PList [])) = Some experience
        \<and> experience_loop RULE_WEIGHTS (normalize_skill_set required_raw) experience (0, 0)
            = Some exp_acc
        \<and> min (snd exp_acc) 10 \<le> 10
        \<and> experience_score (parts r) = min (fst exp_acc + min (snd exp_acc) 10) 15)"
proof -
  note c = score_components [OF assms]
  from score_total [OF assms] c have t: "0 \<le> total r \<and> total r \<le> 100"
    by (auto simp: breakdown_sum_def)
  from score_unfold [OF assms] have
    "\<exists>required_raw experience exp_acc.
          py_iter (dict_get job ''required_skills'' (PList [])) = Some required_raw
        \<and> py_iter (dict_get resume ''experience'' (PList [])) = Some experience
        \<and> experience_loop RULE_WEIGHTS (normalize_skill_set required_raw) experience (0, 0)
            = Some exp_acc
        \<and> min (snd exp_acc) 10 \<le> 10
        \<and> experience_score (parts r) = min (fst exp_acc + min (snd exp_acc) 10) 15"
    by (elim exE conjE) (intro exI conjI, assumption+, simp_all)
  with t c show ?thesis by blast
qed

theorem score_bounds_witness:
  "\<exists>r. score RuleBasedScorer_init resume_full job_full = Some r
     \<and> total r = 57 \<and> 0 \<le> total r \<and> total r \<le> 100
     \<and> experience_score (parts r) = 7 \<and> experience_score (parts r) \<le> 15
     \<and> projects_score (parts r) \<le> 10 \<and> company_score (parts r) \<le> 20
     \<and> education_score (parts r) \<le> 10"
  using score_bounds [OF score_resume_full] score_resume_full by simp

text \<open>
  C2. If some normalized must-have skill of the job is missing from the normalized skill set
  of the resume, the total is the sum of the components less the penalty of 30, floored at 0
  and then capped at 100; a sum of 70 gives 40.
\<close>

theorem must_have_penalty:
  assumes "score RuleBasedScorer_init resume job = Some r"
    and "py_iter (dict_get job ''must_have_skills'' (PList [])) = Some must_raw"
    and "\<exists>s \<in> normalize_skill_set must_raw. s \<notin> resume_skill_set resume"
  shows "MUST_HAVE_PENALTY = 30
    \<and> total r = min (max 0 (breakdown_sum (parts r) - MUST_HAVE_PENALTY)) 100
    \<and> (breakdown_sum (parts r) = 70 \<longrightarrow> total r = 40)"
  using score_total [OF assms(1)] assms(2,3)
  by (auto simp: MUST_HAVE_PENALTY_def)

theorem must_have_penalty_witness:
  "\<exists>r. score RuleBasedScorer_init resume_seven job_python = Some r
     \<and> dict_get job_python ''must_have_skills'' (PList []) = PList [PStr ''Python'']
     \<and> ''python'' \<in> normalize_skill_set [PStr ''Python'']
     \<and> ''python'' \<notin> resume_skill_set resume_seven
     \<and> breakdown_sum (parts r) = 70
     \<and> total r = 40"
proof -
  have g: "dict_get job_python ''must_have_skills'' (PList []) = PList [PStr ''Python'']"
    by code_simp
  have i: "py_iter (dict_get job_python ''must_have_skills'' (PList []))
             = Some [PStr ''Python'']"
    by (simp add: g)
  have m: "''python'' \<in> normalize_skill_set [PStr ''Python'']"
    by code_simp
  have n: "''python'' \<notin> resume_skill_set resume_seven"
    by code_simp
  from m n have e: "\<exists>s \<in> normalize_skill_set [PStr ''Python'']. s \<notin> resume_skill_set resume_seven"
    by blast
  from must_have_penalty [OF score_resume_seven_python i e] score_resume_seven_python g m n
  show ?thesis by (simp add: breakdown_sum_def)
qed

text \<open>
  C10. The total is \<open>min 100 S\<close> when no normalized must-have skill is missing from the
  resume and \<open>min 100 (max 0 (S - 30))\<close> otherwise, for \<open>S\<close> the sum of the five components
  returned. The components are returned as computed, before the penalty and the cap, so
  the total can be smaller than their sum: by the penalty (40 against 70) and by the cap
  (100 against 110).
\<close>

theorem total_from_breakdown:
  "(score RuleBasedScorer_init resume job = Some r \<longrightarrow>
      (\<exists>must_raw. py_iter (dict_get job ''must_have_skills'' (PList [])) = Some must_raw
         \<and> total r =
             (if \<exists>s \<in> normalize_skill_set must_raw. s \<notin> resume_skill_set resume
              then min 100 (max 0 (breakdown_sum (parts r) - 30))
              else min 100 (breakdown_sum (parts r)))))
   \<and> (\<exists>r'. score RuleBasedScorer_init resume_seven job_python = Some r'
          \<and> total r' = 40 \<and> breakdown_sum (parts r') = 70)
   \<and> (\<exists>r'. score RuleBasedScorer_init resume_eleven job_eleven = Some r'
          \<and> total r' = 100 \<and> breakdown_sum (parts r') = 110)"
proof (intro conjI impI)
  assume a: "score RuleBasedScorer_init resume job = Some r"
  from score_total [OF a] obtain must_raw where
    m: "py_iter (dict_get job ''must_have_skills'' (PList [])) = Some must_raw"
    and t: "total r =
         min (if \<exists>s \<in> normalize_skill_set must_raw. s \<notin> resume_skill_set resume
              then max 0 (breakdown_sum (parts r) - 30) else breakdown_sum (parts r)) 100"
    by blast
  from t have "total r =
             (if \<exists>s \<in> normalize_skill_set must_raw. s \<notin> resume_skill_set resume
              then min 100 (max 0 (breakdown_sum (parts r) - 30))
              else min 100 (breakdown_sum (parts r)))"
    by (simp add: min.commute)
  with m show "\<exists>must_raw. py_iter (dict_get job ''must_have_skills'' (PList [])) = Some must_raw
         \<and> total r =
             (if \<exists>s \<in> normalize_skill_set must_raw. s \<notin> resume_skill_set resume
              then min 100 (max 0 (breakdown_sum (parts r) - 30))
              else min 100 (breakdown_sum (parts r)))"
    by blast
next
  show "\<exists>r'. score RuleBasedScorer_init resume_seven job_python = Some r'
          \<and> total r' = 40 \<and> breakdown_sum (parts r') = 70"
    using score_resume_seven_python by (simp add: breakdown_sum_def)
next
  show "\<exists>r'. score RuleBasedScorer_init resume_eleven job_eleven = Some r'
          \<and> total r' = 100 \<and> breakdown_sum (parts r') = 110"
    using score_resume_eleven by (simp add: breakdown_sum_def)
qed

theorem total_from_breakdown_witness:
  "\<exists>r. score RuleBasedScorer_init resume_seven job_seven = Some r
     \<and> py_iter (dict_get job_seven ''must_have_skills'' (PList [])) = Some []
     \<and> normalize_skill_set [] = {}
     \<and> breakdown_sum (parts r) = 70
     \<and> total r = 70"
proof -
  have i: "py_iter (dict_get job_seven ''must_have_skills'' (PList [])) = Some []"
    by code_simp
  have n: "normalize_skill_set [] = {}"
    by code_simp
  from total_from_breakdown [of resume_seven job_seven] score_resume_seven i n
  show ?thesis by (simp add: breakdown_sum_def)
qed


section \<open>Properties of strings\<close>

lemma strip_Nil [simp]: "strip [] = []"
  by (simp add: strip_def rstrip_def lstrip_def)

lemma sublist_dropWhile:
  assumes "sublist u t" "u \<noteq> []" "\<not> P (hd u)"
  shows "sublist u (dropWhile P t)"
proof -
  from assms(1) obtain ps ss where t: "t = ps @ u @ ss"
    by (auto simp: sublist_def)
  from assms(2,3) have u: "dropWhile P (u @ ss) = u @ ss"
    by (cases u) auto
  show ?thesis
  proof (cases "\<forall>x \<in> set ps. P x")
    case True
    then have "dropWhile P t = u @ ss"
      using t u by (simp add: dropWhile_append2)
    then show ?thesis by simp
  next
    case False
    then have "dropWhile P t = dropWhile P ps @ u @ ss"
      using t by (auto simp: dropWhile_append1)
    then show ?thesis by simp
  qed
qed

lemma sublist_rstrip:
  assumes "sublist u t" "u \<noteq> []" "\<not> is_space (last u)"
  shows "sublist u (rstrip t)"
proof -
  from assms have "sublist (rev u) (dropWhile is_space (rev t))"
    by (intro sublist_dropWhile) (simp_all add: hd_rev)
  then show ?thesis
    by (simp add: rstrip_def sublist_rev_right)
qed

lemma sublist_strip:
  assumes "sublist u t" "u \<noteq> []" "\<not> is_space (hd u)" "\<not> is_space (last u)"
  shows "sublist u (strip t)"
  unfolding strip_def lstrip_def
  using assms by (intro sublist_rstrip sublist_dropWhile)

lemma strip_ends:
  assumes "strip l \<noteq> []"
  shows "\<not> is_space (hd (strip l))" and "\<not> is_space (last (strip l))"
proof -
  let ?v = "dropWhile is_space l"
  let ?w = "dropWhile is_space (rev ?v)"
  have s: "strip l = rev ?w"
    by (simp add: strip_def rstrip_def lstrip_def)
  with assms have w: "?w \<noteq> []" by simp
  then have "\<not> is_space (hd ?w)" by (rule hd_dropWhile)
  then show "\<not> is_space (last (strip l))"
    using w by (simp add: s last_rev)
  have v: "?v \<noteq> []"
  proof
    assume a: "?v = []"
    have "?w = []" unfolding a by simp
    with w show False by simp
  qed
  then have hv: "\<not> is_space (hd ?v)" by (rule hd_dropWhile)
  have "suffix ?w (rev ?v)" by (rule suffix_dropWhile)
  then obtain zs where "rev ?v = zs @ ?w" by (auto simp: suffix_def)
  then have "?v = rev ?w @ rev zs"
    by (metis rev_append rev_rev_ident)
  with w have "hd ?v = hd (rev ?w)" by (metis hd_append2 rev_is_Nil_conv)
  with hv show "\<not> is_space (hd (strip l))" by (simp add: s)
qed

lemma sublist_strip_self: "sublist (strip l) l"
proof -
  have "prefix (rev (dropWhile is_space (rev (dropWhile is_space l)))) (dropWhile is_space l)"
    using suffix_dropWhile [of is_space "rev (dropWhile is_space l)"]
    by (simp add: suffix_to_prefix)
  then have "sublist (strip l) (dropWhile is_space l)"
    by (simp add: strip_def rstrip_def lstrip_def)
  moreover have "sublist (dropWhile is_space l) l"
    by (simp add: suffix_dropWhile)
  ultimately show ?thesis by (rule sublist_order.order_trans)
qed

lemma sublist_join: "l \<in> set block \<Longrightarrow> sublist l (join sep block)"
proof (induction sep block rule: join.induct)
  case (3 sep p q ps)
  show ?case
  proof (cases "l = p")
    case True
    then show ?thesis by simp
  next
    case False
    with 3 have "sublist l (join sep (q # ps))" by simp
    then obtain a b where "join sep (q # ps) = a @ l @ b"
      by (auto simp: sublist_def)
    then have "join sep (p # q # ps) = (p @ sep @ a) @ l @ b" by simp
    then show ?thesis unfolding sublist_def by blast
  qed
qed simp_all

text \<open>A line that is not blank shows in the stripped content of a block that holds it.\<close>

lemma line_in_content:
  assumes "l \<in> set block" "strip l \<noteq> []"
  shows "sublist (strip l) (strip (join sep block))" and "strip (join sep block) \<noteq> []"
proof -
  have "sublist (strip l) (join sep block)"
    using sublist_strip_self sublist_join [OF assms(1)] by (rule sublist_order.order_trans)
  then show "sublist (strip l) (strip (join sep block))"
    using assms(2) strip_ends [OF assms(2)] by (intro sublist_strip)
  with assms(2) show "strip (join sep block) \<noteq> []"
    by (cases "strip l") auto
qed


subsection \<open>Normal forms of skill strings\<close>

lemma split_on_not_Nil: "split_on sep s \<noteq> []"
  by (induction s) (auto split: list.splits)

lemma hd_split_on: "hd (split_on sep s) = takeWhile (\<lambda>c. c \<noteq> sep) s"
  by (induction s) (auto simp: split_on_not_Nil split: list.splits)

lemma strip_fixed:
  assumes "x = [] \<or> (\<not> is_space (hd x) \<and> \<not> is_space (last x))"
  shows "strip x = x"
proof (cases x)
  case Nil
  then show ?thesis by simp
next
  case (Cons c cs)
  with assms have h: "\<not> is_space c" and l: "\<not> is_space (last x)" by simp_all
  from h Cons have a: "dropWhile is_space x = x" by simp
  from Cons have n: "x \<noteq> []" by simp
  then have "\<not> is_space (hd (rev x))" using l by (simp add: hd_rev)
  moreover have "rev x \<noteq> []" using n by simp
  ultimately have "dropWhile is_space (rev x) = rev x"
    by (cases "rev x") simp_all
  with a show ?thesis by (simp add: strip_def lstrip_def rstrip_def)
qed

lemma strip_strip [simp]: "strip (strip x) = strip x"
proof (cases "strip x = []")
  case True
  then show ?thesis by simp
next
  case False
  from strip_ends [OF False] show ?thesis by (intro strip_fixed) simp
qed

lemma collapse_ws_hd:
  "collapse_ws xs = y # ys \<Longrightarrow> xs \<noteq> [] \<and> (is_space y \<longleftrightarrow> is_space (hd xs))"
  by (cases xs) (auto simp: is_space_def split: if_splits)

lemma single_spaced_Cons:
  "single_spaced (c # cs) =
     ((is_space c \<longrightarrow> c = CHR '' '' \<and> (cs = [] \<or> \<not> is_space (hd cs))) \<and> single_spaced cs)"
  by (cases cs) auto

lemma single_spaced_collapse_ws: "single_spaced (collapse_ws xs)"
proof (induction xs rule: collapse_ws.induct)
  case 1
  show ?case by simp
next
  case (2 c cs)
  show ?case
  proof (cases "is_space c")
    case True
    let ?r = "dropWhile is_space cs"
    have "collapse_ws ?r = [] \<or> \<not> is_space (hd (collapse_ws ?r))"
    proof (cases "collapse_ws ?r")
      case Nil
      then show ?thesis by simp
    next
      case (Cons y ys)
      from collapse_ws_hd [OF Cons] have "?r \<noteq> []" and "is_space y = is_space (hd ?r)"
        by simp_all
      moreover from \<open>?r \<noteq> []\<close> have "\<not> is_space (hd ?r)" by (rule hd_dropWhile)
      ultimately show ?thesis using Cons by simp
    qed
    with True 2 show ?thesis
      by (simp add: single_spaced_Cons)
  next
    case False
    with 2 show ?thesis by (simp add: single_spaced_Cons)
  qed
qed

lemma collapse_ws_fixed: "single_spaced y \<Longrightarrow> collapse_ws y = y"
proof (induction y rule: single_spaced.induct)
  case (3 c d cs)
  then show ?case by (cases "is_space c") auto
qed auto

lemma single_spaced_append:
  "single_spaced (xs @ ys) \<Longrightarrow> single_spaced xs \<and> single_spaced ys"
proof (induction xs rule: single_spaced.induct)
  case 1
  then show ?case by simp
next
  case (2 c)
  then show ?case by (simp add: single_spaced_Cons)
next
  case (3 c d cs)
  then show ?case by (simp add: single_spaced_Cons)
qed

lemma single_spaced_sublist:
  assumes "sublist u t" "single_spaced t"
  shows "single_spaced u"
proof -
  from assms(1) obtain ps ss where "t = ps @ u @ ss" by (auto simp: sublist_def)
  with assms(2) show ?thesis by (blast dest: single_spaced_append)
qed

lemma set_collapse_ws: "set (collapse_ws xs) \<subseteq> insert (CHR '' '') (set xs)"
proof (induction xs rule: collapse_ws.induct)
  case 1
  show ?case by simp
next
  case (2 c cs)
  have "set (dropWhile is_space cs) \<subseteq> set cs" by (rule set_dropWhileD [THEN subsetI])
  with 2 show ?case by (cases "is_space c") auto
qed

lemma set_strip: "set (strip x) \<subseteq> set x"
  by (rule set_mono_sublist) (rule sublist_strip_self)

lemma lower_char_idem [simp]: "lower_char (lower_char c) = lower_char c"
proof (cases "is_upper c")
  case True
  then have "(65::nat) \<le> of_char c" "of_char c \<le> (90::nat)"
    by (simp_all add: is_upper_def less_eq_char_def)
  then have "\<not> is_upper (char_of (of_char c + (32::nat)))"
    by (simp add: is_upper_def less_eq_char_def)
  with True show ?thesis by (simp add: lower_char_def)
next
  case False
  then show ?thesis by (simp add: lower_char_def)
qed

text \<open>
  A normalized skill string: no parenthesis, slash or dash, no capital letter, single
  blanks and no space at either end.
\<close>

lemma normalize_skill_string_chars:
  assumes "c \<in> set (normalize_skill_string s)"
  shows "c \<noteq> CHR ''('' \<and> c \<noteq> CHR ''/'' \<and> c \<noteq> CHR ''-'' \<and> lower_char c = c"
proof -
  let ?h = "takeWhile (\<lambda>c. c \<noteq> CHR ''('') s"
  let ?r = "replace_char CHR ''-'' CHR '' '' (replace_char CHR ''/'' CHR '' ''
              (lower (strip ?h)))"
  have b: "lower_char CHR '' '' = CHR '' ''"
    by (simp add: lower_char_def is_upper_def less_eq_char_def)
  have p: "lower_char x \<noteq> CHR ''(''" if "x \<noteq> CHR ''(''" for x
  proof (cases "is_upper x")
    case True
    then have "(65::nat) \<le> of_char x" "of_char x \<le> (90::nat)"
      by (simp_all add: is_upper_def less_eq_char_def)
    then have "of_char (lower_char x) \<noteq> (40::nat)"
      using True by (simp add: lower_char_def)
    then show ?thesis by auto
  next
    case False
    with that show ?thesis by (simp add: lower_char_def)
  qed
  have r: "x \<noteq> CHR ''('' \<and> x \<noteq> CHR ''/'' \<and> x \<noteq> CHR ''-'' \<and> lower_char x = x"
    if "x \<in> set ?r" for x
  proof -
    from that obtain y where y: "y \<in> set (strip ?h)"
      and x: "x = (if (if lower_char y = CHR ''/'' then CHR '' '' else lower_char y) = CHR ''-''
                   then CHR '' ''
                   else (if lower_char y = CHR ''/'' then CHR '' '' else lower_char y))"
      by (auto simp: replace_char_def lower_def)
    from y set_strip have "y \<in> set ?h" by blast
    then have "y \<noteq> CHR ''(''" by (auto dest: set_takeWhileD)
    from p [OF this] x b show ?thesis by (auto split: if_splits)
  qed
  from assms have "c \<in> set (strip (collapse_ws ?r))"
    by (simp add: normalize_skill_string_def normalize_text_def hd_split_on)
  with set_strip set_collapse_ws have "c = CHR '' '' \<or> c \<in> set ?r" by blast
  with r b show ?thesis by auto
qed

lemma normalize_skill_string_stripped [simp]:
  "strip (normalize_skill_string s) = normalize_skill_string s"
  by (simp add: normalize_skill_string_def)

lemma normalize_skill_string_idem [simp]:
  "normalize_skill_string (normalize_skill_string s) = normalize_skill_string s"
proof -
  let ?t = "normalize_skill_string s"
  have g: "\<forall>c \<in> set ?t. c \<noteq> CHR ''('' \<and> c \<noteq> CHR ''/'' \<and> c \<noteq> CHR ''-'' \<and> lower_char c = c"
    using normalize_skill_string_chars by blast
  then have h: "takeWhile (\<lambda>c. c \<noteq> CHR ''('') ?t = ?t"
    by (simp add: takeWhile_eq_all_conv)
  from g have l: "lower ?t = ?t"
    by (simp add: lower_def map_idI)
  from g have r: "replace_char CHR ''-'' CHR '' '' (replace_char CHR ''/'' CHR '' '' ?t) = ?t"
    by (simp add: replace_char_def map_idI)
  have "single_spaced ?t"
    unfolding normalize_skill_string_def
    by (rule single_spaced_sublist [OF sublist_strip_self single_spaced_collapse_ws])
  then have c: "collapse_ws ?t = ?t" by (rule collapse_ws_fixed)
  have "normalize_skill_string ?t
          = strip (collapse_ws (replace_char CHR ''-'' CHR '' ''
              (replace_char CHR ''/'' CHR '' '' (lower (strip (takeWhile (\<lambda>c. c \<noteq> CHR ''('') ?t))))))"
    by (simp add: normalize_skill_string_def normalize_text_def hd_split_on)
  also have "\<dots> = ?t"
    by (simp only: h normalize_skill_string_stripped l r c)
  finally show ?thesis .
qed


section \<open>Properties of the skill normalizer and of the coverage\<close>

text \<open>
  The synonyms of the table are normalized strings, none is empty, and the synonyms of a
  synonym of \<open>a\<close> are \<open>a\<close> itself or synonyms of \<open>a\<close>.
\<close>

lemma synonym_mapping_closed:
  "list_all
     (\<lambda>(a, syns).
        list_all
          (\<lambda>u. u \<noteq> [] \<and> normalize_skill_string u = u
               \<and> list_all (\<lambda>v. v = a \<or> v \<in> set syns)
                    (case map_of synonym_mapping u of None \<Rightarrow> [] | Some l \<Rightarrow> l))
          syns)
     synonym_mapping"
  by code_simp

lemma synonym_facts:
  assumes "map_of synonym_mapping a = Some syns" "u \<in> set syns"
  shows "u \<noteq> []" and "normalize_skill_string u = u"
    and "map_of synonym_mapping u = Some l \<Longrightarrow> v \<in> set l \<Longrightarrow> v = a \<or> v \<in> set syns"
proof -
  from assms(1) have "(a, syns) \<in> set synonym_mapping" by (rule map_of_SomeD)
  with synonym_mapping_closed assms(2) have
    f: "u \<noteq> [] \<and> normalize_skill_string u = u
        \<and> list_all (\<lambda>v. v = a \<or> v \<in> set syns)
             (case map_of synonym_mapping u of None \<Rightarrow> [] | Some l \<Rightarrow> l)"
    unfolding list_all_iff by fast
  then show "u \<noteq> []" and "normalize_skill_string u = u" by simp_all
  show "v = a \<or> v \<in> set syns" if "map_of synonym_mapping u = Some l" "v \<in> set l"
    using f that unfolding list_all_iff by simp
qed

text \<open>
  Normalizing the result of \<open>normalize_skill_set\<close> again (the set enumerated in any order)
  gives the same set but for the empty string: idempotence holds exactly when no skill
  of the input normalizes to the empty string.
\<close>

lemma normalize_skill_set_again:
  assumes "set (strs_of ys) = normalize_skill_set X"
  shows "normalize_skill_set ys = normalize_skill_set X - {[]}"
proof -
  define syn where
    "syn a = (case map_of synonym_mapping a of None \<Rightarrow> {} | Some l \<Rightarrow> set l)" for a
  define A where
    "A = set (map normalize_skill_string (filter (\<lambda>s. strip s \<noteq> []) (strs_of X)))"
  define E where "E = normalize_skill_set X"
  have ex: "expand_skill_synonyms S = (\<Union>a \<in> S. insert a (syn a))" for S
    by (simp add: expand_skill_synonyms_def syn_def)
  have E: "E = (\<Union>a \<in> A. insert a (syn a))"
    by (simp add: E_def normalize_skill_set_def A_def ex)
  have syn1: "u \<noteq> [] \<and> normalize_skill_string u = u" if "u \<in> syn a" for a u
    using that synonym_facts(1,2) [of a _ u]
    by (auto simp: syn_def split: option.splits)
  have syn2: "v = a \<or> v \<in> syn a" if "u \<in> syn a" "v \<in> syn u" for a u v
    using that synonym_facts(3) [of a _ u _ v]
    by (auto simp: syn_def split: option.splits)
  have fixed: "normalize_skill_string u = u" if "u \<in> E" for u
    using that syn1 by (auto simp: E A_def)
  have A': "set (map normalize_skill_string (filter (\<lambda>s. strip s \<noteq> []) (strs_of ys)))
              = E - {[]}"
  proof -
    have "strip u = u" if "u \<in> E" for u
      using fixed [OF that] normalize_skill_string_stripped [of u] by simp
    then have "{s \<in> E. strip s \<noteq> []} = E - {[]}" by auto
    moreover have "normalize_skill_string ` (E - {[]}) = E - {[]}"
      using fixed by (auto simp: image_iff)
    ultimately show ?thesis
      using assms by (simp add: E_def [symmetric])
  qed
  have c: "(\<Union>a \<in> E - {[]}. insert a (syn a)) = E - {[]}"
  proof (intro equalityI subsetI)
    fix v
    assume "v \<in> (\<Union>a \<in> E - {[]}. insert a (syn a))"
    then obtain u where u: "u \<in> E" "u \<noteq> []" and v: "v = u \<or> v \<in> syn u" by auto
    show "v \<in> E - {[]}"
    proof (cases "v = u")
      case True
      with u show ?thesis by simp
    next
      case False
      with v have vs: "v \<in> syn u" by simp
      from u(1) obtain a where a: "a \<in> A" "u = a \<or> u \<in> syn a" by (auto simp: E)
      from a(2) have "v = a \<or> v \<in> syn a"
        using vs syn2 by blast
      with a(1) have "v \<in> E" by (auto simp: E)
      with syn1 [OF vs] show ?thesis by simp
    qed
  next
    fix v
    assume "v \<in> E - {[]}"
    then show "v \<in> (\<Union>a \<in> E - {[]}. insert a (syn a))" by blast
  qed
  have "normalize_skill_set ys = expand_skill_synonyms (E - {[]})"
    unfolding normalize_skill_set_def [of ys] A' ..
  also have "\<dots> = (\<Union>a \<in> E - {[]}. insert a (syn a))" by (rule ex)
  also have "\<dots> = E - {[]}" by (rule c)
  finally show ?thesis by (simp only: E_def)
qed

text \<open>
  C3. \<^verbatim>\<open>normalize_skill_set\<close> is not idempotent on every input. The blank filter looks at the
  raw string, so a skill that is not blank but normalizes to the empty string (a lone dash,
  a skill that is only a parenthesis) puts \<open>''''\<close> into the result; normalizing that result
  again drops it.
\<close>

theorem normalize_skill_set_dash:
  "normalize_skill_set [PStr ''-''] = {''''}
   \<and> normalize_skill_set [PStr ''''] = {}
   \<and> normalize_skill_set [PStr ''''] \<noteq> normalize_skill_set [PStr ''-'']"
proof -
  have a: "normalize_skill_set [PStr ''-''] = {''''}" by code_simp
  have b: "normalize_skill_set [PStr ''''] = {}" by code_simp
  show ?thesis unfolding a b by simp
qed

lemma compute_skill_coverage_eq:
  assumes "py_iter (dict_get job_data ''required_skills'' (PList [])) = Some required_raw"
    and "those (map py_lower required_raw) = Some lowered"
  shows "compute_skill_coverage job_data resume_data =
           Some (if set lowered = {} then 0
                 else real (card (set lowered \<inter> resume_skill_set resume_data))
                      / real (card (set lowered)))"
  using assms by (simp add: compute_skill_coverage_def Let_def)

text \<open>
  C4. \<^verbatim>\<open>compute_skill_coverage\<close> divides the number of lowercased required skills found in
  the normalized skill set of the resume by the number of lowercased required skills, and
  returns 0 when there is none. The required skills are lowercased, not normalized: a job
  that requires "CI/CD" is not covered by a resume that lists "CI/CD", where the coverage
  over the normalized required skills is 1.
\<close>

theorem coverage_cicd:
  "compute_skill_coverage job_cicd resume_cicd = Some 0
   \<and> coverage_as_specified job_cicd resume_cicd = Some 1"
proof -
  have r: "resume_skill_set resume_cicd = {''ci cd''}" by code_simp
  have i: "py_iter (dict_get job_cicd ''required_skills'' (PList [])) = Some [PStr ''CI/CD'']"
    by code_simp
  have l: "those (map py_lower [PStr ''CI/CD'']) = Some [''ci/cd'']" by code_simp
  have n: "normalize_skill_set [PStr ''CI/CD''] = {''ci cd''}" by code_simp
  have "compute_skill_coverage job_cicd resume_cicd = Some 0"
    by (simp add: compute_skill_coverage_eq [OF i l] r)
  moreover have "coverage_as_specified job_cicd resume_cicd = Some 1"
    by (simp add: coverage_as_specified_def i n r)
  ultimately show ?thesis by simp
qed


section \<open>Properties of the section segmenter\<close>

lemma save_section_fields [simp]:
  "closed (save_section st) =
     closed st @ [(current_section st, strip (join [CHR 0x0A] (current_content st)))]"
  "current_content (save_section st) = current_content st"
  "current_section (save_section st) = current_section st"
  by (simp_all add: save_section_def Let_def)

text \<open>The history \<open>closed\<close> is only written: the rest of the state does not depend on it.\<close>

lemma detect_step_history:
  "sections (detect_step (st\<lparr>closed := h\<rparr>) line) = sections (detect_step st line)"
  "current_section (detect_step (st\<lparr>closed := h\<rparr>) line) = current_section (detect_step st line)"
  "current_content (detect_step (st\<lparr>closed := h\<rparr>) line) = current_content (detect_step st line)"
  by (auto simp: detect_step_def save_section_def Let_def split: option.splits)

lemma save_section_sections:
  "sections (save_section st) =
     (if strip (join [CHR 0x0A] (current_content st)) \<noteq> []
      then AList.update (current_section st) (strip (join [CHR 0x0A] (current_content st)))
             (sections st)
      else sections st)"
  by (cases "current_content st = []") (simp_all add: save_section_def Let_def)

text \<open>
  The dictionary holds, for each section type, the content closed last among the closed
  contents that are not empty.
\<close>

lemma save_section_inv:
  assumes "map_of (sections st) = map_of (rev (saved_of (closed st)))"
  shows "map_of (sections (save_section st)) = map_of (rev (saved_of (closed (save_section st))))"
  using assms by (auto simp: save_section_sections saved_of_def update_conv')

lemma detect_step_inv:
  assumes "map_of (sections st) = map_of (rev (saved_of (closed st)))"
  shows "map_of (sections (detect_step st line))
           = map_of (rev (saved_of (closed (detect_step st line))))"
  using assms save_section_inv [OF assms]
  by (auto simp: detect_step_def split: option.splits)

lemma detect_fold_inv:
  "map_of (sections (foldl detect_step detect_init ls))
     = map_of (rev (saved_of (closed (foldl detect_step detect_init ls))))"
proof (induction ls rule: rev_induct)
  case Nil
  show ?case by (simp add: detect_init_def saved_of_def)
next
  case (snoc l ls)
  then show ?case by (simp add: detect_step_inv)
qed

lemma detect_sections_saved:
  "map_of (detect_sections text) = map_of (rev (saved_of (closed_sections text)))"
  unfolding detect_sections_def closed_sections_def detect_final_def
  by (rule save_section_inv) (rule detect_fold_inv)

lemma save_section_distinct:
  "distinct (map fst (sections st)) \<Longrightarrow> distinct (map fst (sections (save_section st)))"
  by (simp add: save_section_sections distinct_update)

lemma detect_step_distinct:
  "distinct (map fst (sections st)) \<Longrightarrow> distinct (map fst (sections (detect_step st line)))"
  by (auto simp: detect_step_def save_section_distinct split: option.splits)

lemma detect_sections_distinct: "distinct (map fst (detect_sections text))"
proof -
  have "distinct (map fst (sections (foldl detect_step detect_init ls)))" for ls
    by (induction ls rule: rev_induct) (simp_all add: detect_init_def detect_step_distinct)
  then show ?thesis
    unfolding detect_sections_def detect_final_def by (rule save_section_distinct)
qed

lemma save_section_covered:
  assumes "covered st l"
  shows "\<exists>kc \<in> set (closed (save_section st)).
           \<exists>block. l \<in> set block \<and> snd kc = strip (join [CHR 0x0A] block)"
  using assms unfolding covered_def by (auto intro: exI [of _ "current_content st"])

lemma detect_step_covered:
  assumes "covered st l"
  shows "covered (detect_step st line) l"
proof (cases "strip line \<noteq> [] \<and> is_header_line line")
  case True
  then have "closed (detect_step st line) = closed (save_section st)"
    by (auto simp: detect_step_def is_header_line_def split: option.splits)
  with save_section_covered [OF assms] show ?thesis
    unfolding covered_def by simp
next
  case False
  then have "closed (detect_step st line) = closed st"
    and "set (current_content st) \<subseteq> set (current_content (detect_step st line))"
    by (auto simp: detect_step_def is_header_line_def split: option.splits)
  with assms show ?thesis
    unfolding covered_def by auto
qed

lemma detect_step_new:
  assumes "strip line \<noteq> []" "\<not> is_header_line line"
  shows "covered (detect_step st line) line"
  using assms
  by (auto simp: covered_def detect_step_def is_header_line_def split: option.splits)

lemma detect_fold_covered:
  assumes "l \<in> set ls" "strip l \<noteq> []" "\<not> is_header_line l"
  shows "covered (foldl detect_step detect_init ls) l"
  using assms(1)
proof (induction ls rule: rev_induct)
  case Nil
  then show ?case by simp
next
  case (snoc x xs)
  show ?case
  proof (cases "l \<in> set xs")
    case True
    with snoc.IH show ?thesis by (simp add: detect_step_covered)
  next
    case False
    with snoc.prems have "x = l" by simp
    with assms(2,3) show ?thesis by (simp add: detect_step_new)
  qed
qed

lemma map_of_rev_saved_Some:
  assumes "kc \<in> set cl" "snd kc \<noteq> []"
  shows "fst kc \<in> dom (map_of (rev (saved_of cl)))"
proof -
  from assms have "fst kc \<in> fst ` set (rev (saved_of cl))"
    by (auto simp: saved_of_def)
  then show ?thesis by (simp add: dom_map_of_conv_image_fst)
qed

text \<open>
  In terms of the history: every such line lies in a block that was closed with a content
  that is not empty, in which the stripped line occurs.
\<close>

lemma closed_sections_hold_lines:
  assumes "line \<in> set (split_on (CHR 0x0A) text)"
    and "strip line \<noteq> []"
    and "\<not> is_header_line line"
  shows "\<exists>kc \<in> set (closed_sections text).
           snd kc \<noteq> []
         \<and> sublist (strip line) (snd kc)
         \<and> (\<exists>block. line \<in> set block \<and> snd kc = strip (join [CHR 0x0A] block))
         \<and> fst kc \<in> fst ` set (detect_sections text)"
proof -
  from detect_fold_covered [OF assms]
  have "covered (foldl detect_step detect_init (split_on (CHR 0x0A) text)) line" .
  from save_section_covered [OF this] obtain kc block where
    kc: "kc \<in> set (closed_sections text)" and b: "line \<in> set block"
    and c: "snd kc = strip (join [CHR 0x0A] block)"
    unfolding closed_sections_def detect_final_def by blast
  from line_in_content [OF b assms(2), of "[CHR 0x0A]"] c
  have s: "sublist (strip line) (snd kc)" and n: "snd kc \<noteq> []" by simp_all
  from map_of_rev_saved_Some [OF kc n]
  have "fst kc \<in> dom (map_of (detect_sections text))"
    by (simp add: detect_sections_saved)
  then have "fst kc \<in> fst ` set (detect_sections text)"
    by (simp add: dom_map_of_conv_image_fst)
  with kc b c s n show ?thesis by blast
qed

lemma detect_step_keeps_content:
  assumes "l \<in> set (current_content st)"
    and "\<not> (strip x \<noteq> [] \<and> is_header_line x)"
  shows "l \<in> set (current_content (detect_step st x))"
  using assms
  by (auto simp: detect_step_def is_header_line_def split: option.splits)

lemma detect_fold_keeps_content:
  assumes "l \<in> set (current_content st)"
    and "\<forall>x \<in> set xs. \<not> (strip x \<noteq> [] \<and> is_header_line x)"
  shows "l \<in> set (current_content (foldl detect_step st xs))"
  using assms
proof (induction xs arbitrary: st)
  case Nil
  then show ?case by simp
next
  case (Cons x xs)
  from Cons.prems have "l \<in> set (current_content (detect_step st x))"
    by (intro detect_step_keeps_content) simp_all
  with Cons show ?case by simp
qed

lemma detect_step_appends:
  assumes "strip l \<noteq> []" "\<not> is_header_line l"
  shows "l \<in> set (current_content (detect_step st l))"
  using assms
  by (auto simp: detect_step_def is_header_line_def split: option.splits)

lemma detect_step_header:
  assumes "strip h \<noteq> []" "is_header_line h"
  shows "sections (detect_step st h) = sections (save_section st)"
  using assms
  by (auto simp: detect_step_def is_header_line_def split: option.splits)

text \<open>
  Each line that is not blank and not a header waits in \<open>current_content\<close> when its
  section is closed, by the next header or by the end of the text.
\<close>

lemma line_waits_at_closing:
  assumes "lines = a @ l # b" "strip l \<noteq> []" "\<not> is_header_line l"
  shows "\<exists>pre post. lines = pre @ post
           \<and> l \<in> set (current_content (foldl detect_step detect_init pre))
           \<and> (case post of [] \<Rightarrow> True | h # rest \<Rightarrow> strip h \<noteq> [] \<and> is_header_line h)"
proof -
  let ?P = "\<lambda>x. strip x \<noteq> [] \<and> is_header_line x"
  let ?s = "foldl detect_step detect_init (a @ [l])"
  have s: "l \<in> set (current_content ?s)"
    using detect_step_appends [OF assms(2,3)] by simp
  show ?thesis
  proof (cases "\<exists>x \<in> set b. ?P x")
    case False
    then have "l \<in> set (current_content (foldl detect_step ?s b))"
      by (intro detect_fold_keeps_content [OF s]) blast
    then have "l \<in> set (current_content (foldl detect_step detect_init lines))"
      by (simp add: assms(1))
    then show ?thesis
      by (intro exI [of _ lines] exI [of _ "[]"]) simp
  next
    case True
    from split_list_first_prop [OF True] obtain b1 h b2 where
      b: "b = b1 @ h # b2" and h: "?P h" and n: "\<forall>y \<in> set b1. \<not> ?P y"
      by blast
    from n have "l \<in> set (current_content (foldl detect_step ?s b1))"
      by (intro detect_fold_keeps_content [OF s]) blast
    then have "l \<in> set (current_content (foldl detect_step detect_init (a @ l # b1)))"
      by simp
    moreover have "lines = (a @ l # b1) @ h # b2"
      by (simp add: assms(1) b)
    ultimately show ?thesis
      using h by (intro exI [of _ "a @ l # b1"] exI [of _ "h # b2"]) simp
  qed
qed

lemma save_section_stores:
  assumes "l \<in> set (current_content st)" "strip l \<noteq> []"
  shows "strip (join [CHR 0x0A] (current_content st)) \<noteq> []"
    and "sublist (strip l) (strip (join [CHR 0x0A] (current_content st)))"
    and "map_of (sections (save_section st)) (current_section st)
           = Some (strip (join [CHR 0x0A] (current_content st)))"
proof -
  from line_in_content [OF assms, of "[CHR 0x0A]"]
  show n: "strip (join [CHR 0x0A] (current_content st)) \<noteq> []"
    and "sublist (strip l) (strip (join [CHR 0x0A] (current_content st)))"
    by simp_all
  from n show "map_of (sections (save_section st)) (current_section st)
           = Some (strip (join [CHR 0x0A] (current_content st)))"
    by (simp add: save_section_sections update_conv')
qed

text \<open>A key of the dictionary stays a key.\<close>

lemma save_section_keys:
  "fst ` set (sections st) \<subseteq> fst ` set (sections (save_section st))"
  by (auto simp: save_section_sections dom_update)

lemma detect_step_keys:
  "fst ` set (sections st) \<subseteq> fst ` set (sections (detect_step st x))"
  using save_section_keys [of st]
  by (auto simp: detect_step_def split: option.splits)

lemma detect_fold_keys:
  "fst ` set (sections st) \<subseteq> fst ` set (sections (foldl detect_step st xs))"
proof (induction xs arbitrary: st)
  case Nil
  show ?case by simp
next
  case (Cons x xs)
  from detect_step_keys [of st x] Cons [of "detect_step st x"] show ?case by auto
qed

text \<open>
  C6. Every line of the text that is not blank and is not taken as a section header is
  saved: the lines split as \<open>pre @ post\<close> so that, in the state \<open>st\<close> the loop has
  reached after \<open>pre\<close>, the line waits in \<open>current_content\<close>, and the section is closed at
  that point, by the header that \<open>post\<close> starts with or by the end of the text. The
  closing stores in the dictionary \<open>sections\<close>, under the current section type, the
  content \<open>c\<close> (the waiting lines joined by newlines and stripped), which is not empty
  and in which the stripped line occurs. A later section of the same type may overwrite
  the entry; the type stays a key of the dictionary returned.
\<close>

theorem detect_sections_keeps_lines:
  assumes "line \<in> set (split_on (CHR 0x0A) text)"
    and "strip line \<noteq> []"
    and "\<not> is_header_line line"
  shows "\<exists>pre post st c.
           split_on (CHR 0x0A) text = pre @ post
         \<and> st = foldl detect_step detect_init pre
         \<and> line \<in> set (current_content st)
         \<and> c = strip (join [CHR 0x0A] (current_content st))
         \<and> c \<noteq> []
         \<and> sublist (strip line) c
         \<and> map_of (sections (save_section st)) (current_section st) = Some c
         \<and> (case post of
               [] \<Rightarrow> detect_sections text = sections (save_section st)
             | h # rest \<Rightarrow>
                 strip h \<noteq> [] \<and> is_header_line h
                 \<and> sections (foldl detect_step detect_init (pre @ [h]))
                     = sections (save_section st))
         \<and> current_section st \<in> fst ` set (detect_sections text)"
proof -
  from assms(1) obtain a b where "split_on (CHR 0x0A) text = a @ line # b"
    by (auto dest: split_list)
  from line_waits_at_closing [OF this assms(2,3)] obtain pre post where
    sp: "split_on (CHR 0x0A) text = pre @ post"
    and w: "line \<in> set (current_content (foldl detect_step detect_init pre))"
    and p: "case post of [] \<Rightarrow> True | h # rest \<Rightarrow> strip h \<noteq> [] \<and> is_header_line h"
    by blast
  let ?st = "foldl detect_step detect_init pre"
  let ?c = "strip (join [CHR 0x0A] (current_content ?st))"
  note s = save_section_stores [OF w assms(2)]
  from s(3) have k: "current_section ?st \<in> fst ` set (sections (save_section ?st))"
    by (metis domI dom_map_of_conv_image_fst)
  have cl: "(case post of
               [] \<Rightarrow> detect_sections text = sections (save_section ?st)
             | h # rest \<Rightarrow>
                 strip h \<noteq> [] \<and> is_header_line h
                 \<and> sections (foldl detect_step detect_init (pre @ [h]))
                     = sections (save_section ?st))"
    using p sp
    by (auto simp: detect_sections_def detect_final_def detect_step_header split: list.splits)
  have fin: "current_section ?st \<in> fst ` set (detect_sections text)"
  proof (cases post)
    case Nil
    with cl k show ?thesis by simp
  next
    case (Cons h rest)
    with cl have e: "sections (foldl detect_step detect_init (pre @ [h]))
                       = sections (save_section ?st)" by simp
    let ?t = "foldl detect_step detect_init (pre @ [h])"
    have "detect_sections text = sections (save_section (foldl detect_step ?t rest))"
      by (simp add: detect_sections_def detect_final_def sp Cons)
    moreover have "fst ` set (sections ?t)
                     \<subseteq> fst ` set (sections (save_section (foldl detect_step ?t rest)))"
      using detect_fold_keys [of ?t rest] save_section_keys [of "foldl detect_step ?t rest"]
      by blast
    ultimately show ?thesis using k e by auto
  qed
  from sp w s cl fin show ?thesis by blast
qed

text \<open>
  C7, as the code has it. For a section type, the dictionary returned holds the content
  of the last closed section of that type whose content is not empty, and nothing of the
  earlier ones; each type is a key at most once. A later section of the type with no
  content is skipped and leaves the earlier entry in place.
\<close>

theorem detect_sections_last_wins:
  assumes "closed_sections text = pre @ (k, c) # post"
    and "c \<noteq> []"
    and "\<forall>kc \<in> set post. fst kc = k \<longrightarrow> snd kc = []"
  shows "map_of (detect_sections text) k = Some c \<and> distinct (map fst (detect_sections text))"
proof -
  have "k \<notin> fst ` set (rev (saved_of post))"
    using assms(3) by (auto simp: saved_of_def)
  then have "map_of (rev (saved_of post)) k = None"
    by (simp add: map_of_eq_None_iff)
  then have "map_of (rev (saved_of (pre @ (k, c) # post))) k = Some c"
    using assms(2) by (simp add: saved_of_def map_add_def)
  then show ?thesis
    by (simp add: detect_sections_saved assms(1) detect_sections_distinct)
qed


lemma closed_sections_two_skills:
  "closed_sections text_two_skills =
     [(HEADER, ''Jane Doe''), (SKILLS, ''Python\<newline>\<newline>Java''), (EDUCATION, ''MIT''),
      (SKILLS, ''Rust''), (SKILLS, [])]"
  by code_simp

lemma detect_sections_two_skills:
  "detect_sections text_two_skills =
     [(HEADER, ''Jane Doe''), (SKILLS, ''Rust''), (EDUCATION, ''MIT'')]"
  by code_simp

theorem detect_sections_keeps_lines_witness:
  "''Python'' \<in> set (split_on (CHR 0x0A) text_two_skills)
   \<and> strip ''Python'' \<noteq> []
   \<and> \<not> is_header_line ''Python''
   \<and> (\<exists>pre post st c.
          split_on (CHR 0x0A) text_two_skills = pre @ post
        \<and> st = foldl detect_step detect_init pre
        \<and> ''Python'' \<in> set (current_content st)
        \<and> c = strip (join [CHR 0x0A] (current_content st))
        \<and> c \<noteq> []
        \<and> sublist (strip ''Python'') c
        \<and> map_of (sections (save_section st)) (current_section st) = Some c
        \<and> current_section st \<in> fst ` set (detect_sections text_two_skills))
   \<and> map_of (sections (save_section (foldl detect_step detect_init
               [''Jane Doe'', ''Skills'', ''Python'', [], ''Java''])))
         SKILLS = Some ''Python\<newline>\<newline>Java''"
proof -
  have a: "''Python'' \<in> set (split_on (CHR 0x0A) text_two_skills)" by code_simp
  have b: "strip ''Python'' \<noteq> []" by code_simp
  have c: "\<not> is_header_line ''Python''" by code_simp
  have d: "map_of (sections (save_section (foldl detect_step detect_init
               [''Jane Doe'', ''Skills'', ''Python'', [], ''Java''])))
         SKILLS = Some ''Python\<newline>\<newline>Java''"
    by code_simp
  from detect_sections_keeps_lines [OF a b c] obtain pre post st c where
    "split_on (CHR 0x0A) text_two_skills = pre @ post"
    "st = foldl detect_step detect_init pre"
    "''Python'' \<in> set (current_content st)"
    "c = strip (join [CHR 0x0A] (current_content st))"
    "c \<noteq> []"
    "sublist (strip ''Python'') c"
    "map_of (sections (save_section st)) (current_section st) = Some c"
    "current_section st \<in> fst ` set (detect_sections text_two_skills)"
    by blast
  then have "\<exists>pre post st c.
          split_on (CHR 0x0A) text_two_skills = pre @ post
        \<and> st = foldl detect_step detect_init pre
        \<and> ''Python'' \<in> set (current_content st)
        \<and> c = strip (join [CHR 0x0A] (current_content st))
        \<and> c \<noteq> []
        \<and> sublist (strip ''Python'') c
        \<and> map_of (sections (save_section st)) (current_section st) = Some c
        \<and> current_section st \<in> fst ` set (detect_sections text_two_skills)"
    by blast
  with a b c d show ?thesis by blast
qed

theorem detect_sections_last_wins_witness:
  "closed_sections text_two_skills =
     [(HEADER, ''Jane Doe''), (SKILLS, ''Python\<newline>\<newline>Java''), (EDUCATION, ''MIT'')]
     @ (SKILLS, ''Rust'') # [(SKILLS, [])]
   \<and> map_of (detect_sections text_two_skills) SKILLS = Some ''Rust''
   \<and> distinct (map fst (detect_sections text_two_skills))"
proof -
  have a: "closed_sections text_two_skills =
     [(HEADER, ''Jane Doe''), (SKILLS, ''Python\<newline>\<newline>Java''), (EDUCATION, ''MIT'')]
     @ (SKILLS, ''Rust'') # [(SKILLS, [])]"
    by (simp add: closed_sections_two_skills)
  have b: "''Rust'' \<noteq> []" by simp
  have c: "\<forall>kc \<in> set [(SKILLS, [])]. fst kc = SKILLS \<longrightarrow> snd kc = []" by simp
  from detect_sections_last_wins [OF a b c] a show ?thesis by simp
qed

text \<open>
  C7, as stated, fails when the later section of a type has no content: the header
  "Skills" is detected twice, the second time with nothing after it, and the dictionary
  holds the content of the first.
\<close>

theorem detect_sections_empty_repeat:
  "is_header_line ''Skills''
   \<and> closed_sections text_empty_repeat = [(HEADER, []), (SKILLS, ''Python''), (SKILLS, [])]
   \<and> detect_sections text_empty_repeat = [(SKILLS, ''Python'')]
   \<and> map_of (detect_sections text_empty_repeat) SKILLS
       \<noteq> Some (snd (last (closed_sections text_empty_repeat)))"
proof -
  have a: "is_header_line ''Skills''" by code_simp
  have b: "closed_sections text_empty_repeat = [(HEADER, []), (SKILLS, ''Python''), (SKILLS, [])]"
    by code_simp
  have c: "detect_sections text_empty_repeat = [(SKILLS, ''Python'')]" by code_simp
  show ?thesis unfolding b c using a by simp
qed


section \<open>Properties of the contact extraction\<close>

lemma split_ws_nonempty_words: "[] \<notin> set (split_ws s)"
proof (induction s rule: split_ws.induct)
  case (1 s)
  show ?case
  proof (cases "dropWhile is_space s")
    case Nil
    have "split_ws s = []"
      by (subst split_ws.simps) (simp only: Nil list.simps)
    then show ?thesis by simp
  next
    case (Cons c cs)
    have e: "split_ws s = takeWhile (\<lambda>x. \<not> is_space x) (c # cs)
               # split_ws (dropWhile (\<lambda>x. \<not> is_space x) cs)"
      by (subst split_ws.simps) (simp only: Cons list.simps)
    have "\<not> is_space c"
      using hd_dropWhile [of is_space s] Cons by simp
    with 1 [OF Cons] show ?thesis
      unfolding e by simp
  qed
qed

text \<open>
  C9. On the header of the scenario the extraction finds the name, the e-mail address,
  the phone and the LinkedIn handle of the specification (and nothing else). The phone
  match holds exactly ten digits, so it is rendered as \<^verbatim>\<open>(XXX) XXX-XXXX\<close>.
\<close>

theorem extract_contact_info_jane:
  "jane_header =
     ''Jane A. Doe\<newline>jane.doe@example.com\<newline>(555) 123-4567\<newline>linkedin.com/in/janedoe''
   \<and> extract_contact_info jane_header =
       \<lparr>name = Some ''Jane A. Doe'',
        email = Some ''jane.doe@example.com'',
        phone = Some ''(555) 123-4567'',
        linkedin = Some ''linkedin.com/in/janedoe'',
        github = None, location = None, website = None\<rparr>
   \<and> re_search (hd phone_patterns) False jane_header = Some (''(555) 123-4567'', [])
   \<and> re_sub (NCls [CDigit]) False [] ''(555) 123-4567'' = ''5551234567''"
proof -
  have a: "extract_contact_info jane_header =
       \<lparr>name = Some ''Jane A. Doe'',
        email = Some ''jane.doe@example.com'',
        phone = Some ''(555) 123-4567'',
        linkedin = Some ''linkedin.com/in/janedoe'',
        github = None, location = None, website = None\<rparr>"
    by code_simp
  have b: "re_search (hd phone_patterns) False jane_header = Some (''(555) 123-4567'', [])"
    by code_simp
  have c: "re_sub (NCls [CDigit]) False [] ''(555) 123-4567'' = ''5551234567''"
    by code_simp
  show ?thesis using a b c by (simp add: jane_header_def)
qed


section \<open>Properties of the parser's entry point\<close>

lemma parse_body_shape:
  assumes "parse_body text outs = Inr r"
  shows "map fst r = [''contact'', ''summary'', ''skills'', ''experience'', ''education'',
                      ''sections'', ''metadata'']"
    and "\<exists>detected. map_of r ''metadata''
           = Some (PDict [(''sections_detected'', detected), (''parsing_success'', PBool True)])"
  using assms
  by (auto simp: parse_body_def Let_def split: sum.splits)

text \<open>
  C8, as the code has it. \<^verbatim>\<open>parse\<close> returns a dictionary whatever the body of its \<^verbatim>\<open>try\<close>
  block does. When the body raises an exception with message \<open>e\<close>, the dictionary has the
  six keys \<open>error\<close>, \<open>contact\<close>, \<open>skills\<close>, \<open>experience\<close>, \<open>education\<close> and \<open>metadata\<close>, with
  \<open>error = e\<close>, \<open>parsing_success = False\<close>, an empty \<open>contact\<close>, \<open>experience\<close> and \<open>education\<close>,
  and \<open>skills = {'all': []}\<close>; it has no key \<open>summary\<close> and no key \<open>sections\<close>. When the body
  returns, the dictionary is its result, with the seven keys of a success and
  \<open>parsing_success = True\<close>.
\<close>

theorem parse_failure_shape:
  "((\<exists>e. parse_body text outs = Inl e) \<or> (\<exists>r. parse_body text outs = Inr r))
   \<and> (parse_body text outs = Inl e \<longrightarrow>
        parse text outs =
          [(''error'', PStr e),
           (''contact'', PDict []),
           (''skills'', PDict [(''all'', PList [])]),
           (''experience'', PList []),
           (''education'', PList []),
           (''metadata'', PDict [(''parsing_success'', PBool False)])])
   \<and> (parse_body text outs = Inr r \<longrightarrow>
        parse text outs = r
        \<and> map fst r = [''contact'', ''summary'', ''skills'', ''experience'', ''education'',
                        ''sections'', ''metadata'']
        \<and> (\<exists>detected. map_of r ''metadata''
              = Some (PDict [(''sections_detected'', detected),
                             (''parsing_success'', PBool True)])))"
proof (intro conjI impI)
  show "(\<exists>e. parse_body text outs = Inl e) \<or> (\<exists>r. parse_body text outs = Inr r)"
    by (cases "parse_body text outs") simp_all
next
  assume "parse_body text outs = Inl e"
  then show "parse text outs =
          [(''error'', PStr e),
           (''contact'', PDict []),
           (''skills'', PDict [(''all'', PList [])]),
           (''experience'', PList []),
           (''education'', PList []),
           (''metadata'', PDict [(''parsing_success'', PBool False)])]"
    by (simp add: parse_def parse_failure_def)
next
  assume r: "parse_body text outs = Inr r"
  then show "parse text outs = r" by (simp add: parse_def)
  from parse_body_shape [OF r]
  show "map fst r = [''contact'', ''summary'', ''skills'', ''experience'', ''education'',
                      ''sections'', ''metadata'']"
    and "\<exists>detected. map_of r ''metadata''
           = Some (PDict [(''sections_detected'', detected), (''parsing_success'', PBool True)])"
    by simp_all
qed

lemma parse_body_failing_experience:
  "parse_body (PStr jane_header) failing_experience = Inl ''list index out of range''"
  by code_simp

lemma parse_body_jane:
  "parse_body (PStr jane_header) no_entries =
     Inr [(''contact'',
            PDict [(''name'', PStr ''Jane A. Doe''),
                   (''email'', PStr ''jane.doe@example.com''),
                   (''phone'', PStr ''(555) 123-4567''),
                   (''linkedin'', PStr ''linkedin.com/in/janedoe''),
                   (''github'', PNone), (''location'', PNone), (''website'', PNone)]),
          (''summary'', PNone),
          (''skills'', PDict [(''all'', PList [])]),
          (''experience'', PList []),
          (''education'', PList []),
          (''sections'', PDict [(''header'', PStr jane_header)]),
          (''metadata'',
            PDict [(''sections_detected'', PList [PStr ''header'']),
                   (''parsing_success'', PBool True)])]"
  by code_simp

theorem parse_failure_shape_witness:
  "parse_body (PStr jane_header) failing_experience = Inl ''list index out of range''
   \<and> parse (PStr jane_header) failing_experience =
       [(''error'', PStr ''list index out of range''),
        (''contact'', PDict []),
        (''skills'', PDict [(''all'', PList [])]),
        (''experience'', PList []),
        (''education'', PList []),
        (''metadata'', PDict [(''parsing_success'', PBool False)])]
   \<and> (\<exists>r. parse_body (PStr jane_header) no_entries = Inr r
          \<and> parse (PStr jane_header) no_entries = r
          \<and> map fst r = [''contact'', ''summary'', ''skills'', ''experience'', ''education'',
                          ''sections'', ''metadata''])"
  using parse_failure_shape [of "PStr jane_header" failing_experience
          "''list index out of range''"]
        parse_failure_shape [of "PStr jane_header" no_entries _ "projr (parse_body (PStr jane_header) no_entries)"]
        parse_body_failing_experience parse_body_jane
  by simp

text \<open>
  C8, as stated, fails on the shape: \<^verbatim>\<open>parse(5)\<close> fails in \<^verbatim>\<open>clean_text\<close> (an integer has no
  \<^verbatim>\<open>replace\<close>), and the dictionary returned has neither the key \<open>summary\<close> nor the key
  \<open>sections\<close>, which the dictionary of a success has. A text on which one of the
  extractions fails gets the same six keys.
\<close>

theorem parse_failure_lacks_keys:
  "parse (PInt 5) no_entries =
     [(''error'', PStr (quoted ''int'' @ '' object has no attribute '' @ quoted ''replace'')),
      (''contact'', PDict []),
      (''skills'', PDict [(''all'', PList [])]),
      (''experience'', PList []),
      (''education'', PList []),
      (''metadata'', PDict [(''parsing_success'', PBool False)])]
   \<and> map_of (parse (PInt 5) no_entries) ''summary'' = None
   \<and> map_of (parse (PInt 5) no_entries) ''sections'' = None
   \<and> map fst (parse (PStr jane_header) failing_experience) =
       [''error'', ''contact'', ''skills'', ''experience'', ''education'', ''metadata'']
   \<and> map fst (parse (PStr jane_header) no_entries) =
       [''contact'', ''summary'', ''skills'', ''experience'', ''education'', ''sections'',
        ''metadata'']"
proof -
  have a: "parse (PInt 5) no_entries =
     [(''error'', PStr (quoted ''int'' @ '' object has no attribute '' @ quoted ''replace'')),
      (''contact'', PDict []),
      (''skills'', PDict [(''all'', PList [])]),
      (''experience'', PList []),
      (''education'', PList []),
      (''metadata'', PDict [(''parsing_success'', PBool False)])]"
    by (simp add: parse_def parse_body_def clean_text_def parse_failure_def)
  have b: "map fst (parse (PStr jane_header) no_entries) =
       [''contact'', ''summary'', ''skills'', ''experience'', ''education'', ''sections'',
        ''metadata'']"
    by (simp add: parse_def parse_body_jane)
  have c: "map fst (parse (PStr jane_header) failing_experience) =
       [''error'', ''contact'', ''skills'', ''experience'', ''education'', ''metadata'']"
    by (simp add: parse_def parse_body_failing_experience parse_failure_def)
  show ?thesis unfolding a using b c by simp
qed

end
